theory Spec2Isabelle
  imports Main "HOL-Library.AList"
begin

section \<open>Scope\<close>

text \<open>
  This theory embeds the feature orchestration of the \<open>AutoModeService\<close> class: the
  registry of running features, the feature list file and the execution logs, the state
  machines \<open>implementFeature\<close>, \<open>verifyFeatureTests\<close> and \<open>resumeFeatureWithContext\<close>, and
  the requests \<open>runFeature\<close>, \<open>verifyFeature\<close>, \<open>resumeFeature\<close>, \<open>start\<close> and \<open>stop\<close>.

  \<^item> The service runs on one thread, so a method is not interrupted between two \<open>await\<close>s.
    A method of the model runs to its end; the outside acts only while the stream of the
    delegate is consumed, through the items of the delegate's script.
  \<^item> A method that can raise returns \<open>(js_error + 'a) \<times> world\<close>: the error or the
    value, and the state it leaves.
  \<^item> Console output is left out. The events given to \<open>sendToRenderer\<close> are appended to
    the field \<open>events\<close>; the \<open>input\<close> of a tool event is left out.
  \<^item> Files are addressed by project path and feature id, which stands for the paths
    that \<open>path.join\<close> builds from them. Reading and writing an execution log, writing the feature list
    and deleting a log can fail, as the environment says; a write that fails leaves the
    file as it was.
  \<^item> The clock that \<open>Date.now()\<close> reads belongs to the environment and changes, like
    the files, by the steps of the environment only.
  \<^item> A string is a list of characters, \<open>+\<close> on strings is \<open>@\<close> and
    \<open>substring(0, 500)\<close> is \<open>take 500\<close>.
  \<^item> The prompt texts are not spelled out; a call of \<open>query\<close> is recorded with the
    builder of its prompt and the arguments of the builder.
  \<^item> \<open>sleep\<close> changes no state. \<open>start\<close> does not await \<open>runLoop\<close>: it records that
    the loop was launched, and the loop itself is the function \<open>runLoop\<close>.
  \<^item> A record of the feature list always carries \<open>category\<close>, \<open>description\<close> and
    \<open>steps\<close>; only \<open>id\<close> and \<open>status\<close> may be missing.
\<close>

section \<open>Values of the source language\<close>

text \<open>
  A raised JavaScript error: whether it is an instance of the SDK's \<open>AbortError\<close> class,
  its \<open>name\<close> and its \<open>message\<close>. \<open>new Error(msg)\<close> is \<open>Error_new msg\<close>.
\<close>

datatype js_error = JsError (instanceof_AbortError: bool) (err_name: string) (err_message: string)

definition Error_new :: "string \<Rightarrow> js_error" where
  "Error_new msg = JsError False ''Error'' msg"

text \<open>The test \<open>error instanceof AbortError || error?.name === "AbortError"\<close> of the catch blocks.\<close>

definition is_abort :: "js_error \<Rightarrow> bool" where
  "is_abort error \<longleftrightarrow> instanceof_AbortError error \<or> err_name error = ''AbortError''"

text \<open>Decimal rendering of a number inside a template string.\<close>

definition digit_char :: "nat \<Rightarrow> char" where
  "digit_char d = ''0123456789'' ! d"

function string_of_nat :: "nat \<Rightarrow> string" where
  "string_of_nat n =
     (if n < 10 then [digit_char n] else string_of_nat (n div 10) @ [digit_char (n mod 10)])"
  by pat_completeness auto
termination
  by (relation "measure id") auto

text \<open>
  The non-ASCII symbols of the log texts, as the UTF-8 bytes that reach the log file.
\<close>

definition sym_retry :: string where
  "sym_retry = [CHR 0xF0, CHR 0x9F, CHR 0x94, CHR 0x84]"

definition sym_tool :: string where
  "sym_tool = [CHR 0xF0, CHR 0x9F, CHR 0x94, CHR 0xA7]"

definition sym_clipboard :: string where
  "sym_clipboard = [CHR 0xF0, CHR 0x9F, CHR 0x93, CHR 0x8B]"

definition sym_bolt :: string where
  "sym_bolt = [CHR 0xE2, CHR 0x9A, CHR 0xA1]"

definition sym_check_box :: string where
  "sym_check_box = [CHR 0xE2, CHR 0x9C, CHR 0x85]"

definition sym_check :: string where
  "sym_check = [CHR 0xE2, CHR 0x9C, CHR 0x93]"

definition sym_cross :: string where
  "sym_cross = [CHR 0xE2, CHR 0x9C, CHR 0x97]"

definition sym_warning :: string where
  "sym_warning = [CHR 0xE2, CHR 0x9A, CHR 0xA0]"

section \<open>Features and the files of a project\<close>

text \<open>
  A record of \<open>.automaker/feature_list.json\<close>. The type parameter is the type of the
  \<open>id\<close> field: \<open>string option\<close> for a record as parsed from the file (the id may be
  missing), \<open>string\<close> for a record returned by \<open>loadFeatures\<close>. The \<open>status\<close> may be
  missing in the file. \<open>transient\<close> holds every other field a record carries; the spread
  \<open>...f\<close> keeps it and the rewrite of the file drops it.
\<close>

record 'i feature_rec =
  f_id :: 'i
  category :: string
  description :: string
  steps :: "string list"
  status :: "string option"
  transient :: "(string \<times> string) list"

type_synonym raw_feature = "string option feature_rec"
type_synonym feature = "string feature_rec"

text \<open>
  What reading and parsing the feature list file gives: \<open>Unreadable\<close> when
  \<open>fs.readFile\<close> raises (the file is absent), \<open>Unparseable\<close> when \<open>JSON.parse\<close> raises
  or \<open>features.map\<close> raises on the parsed value (it is not an array, or an element of
  it is \<open>null\<close>), and the parsed records otherwise. The elements of a parsed array are
  taken to be objects.
\<close>

datatype file_content = Unreadable | Unparseable | FeatureArray "raw_feature list"

text \<open>
  Everything outside the service. Files are addressed by project path (the feature list)
  and by project path and feature id (the execution log
  \<open>.automaker/agents-context/<featureId>.md\<close>). \<open>writeFile_error\<close> is the error that
  writing the feature list raises, if any; \<open>unlink_error\<close> is the error code that
  deleting an existing log raises, if any; \<open>log_read_error\<close> says that reading a log
  raises although the file is there; \<open>log_write_error\<close> says that the log directory
  cannot be made or the log cannot be written (as for a feature id that names a
  directory that does not exist); \<open>clock\<close> is what \<open>Date.now()\<close> returns.
\<close>

record environment =
  feature_list_json :: "string \<Rightarrow> file_content"
  agents_context :: "string \<times> string \<Rightarrow> string option"
  writeFile_error :: "string \<Rightarrow> js_error option"
  unlink_error :: "string \<times> string \<Rightarrow> string option"
  log_read_error :: "string \<times> string \<Rightarrow> bool"
  log_write_error :: "string \<times> string \<Rightarrow> bool"
  clock :: nat

section \<open>The service state\<close>

text \<open>
  An entry of the \<open>runningFeatures\<close> map. Abort controllers and query handles are
  objects; the model refers to them by number.
\<close>

record execution =
  abortController :: "nat option"
  query :: "nat option"
  projectPath :: string

text \<open>The events passed to \<open>sendToRenderer\<close>, named by their \<open>type\<close> field.\<close>

datatype event =
    auto_mode_feature_start string feature
  | auto_mode_phase string string string
  | auto_mode_progress string string
  | auto_mode_tool string string
  | auto_mode_feature_complete string bool string
  | auto_mode_error string string
  | auto_mode_complete string

text \<open>
  A call of the SDK's \<open>query\<close>. The prompt texts are kept abstract: which builder made the
  prompt and from what, which system prompt, which tools, which abort controller.
\<close>

datatype prompt =
    FeaturePrompt feature
  | VerificationPrompt feature
  | ResumePrompt feature "string option"

datatype system_prompt = CodingPrompt | VerificationSystemPrompt

record query_request =
  q_prompt :: prompt
  q_systemPrompt :: system_prompt
  q_allowedTools :: "string list"
  q_abortController :: nat

text \<open>A promise that was started and is not awaited by the code that started it.\<close>

datatype promise = RunLoop string

text \<open>
  The state of the \<open>AutoModeService\<close> singleton together with the world it acts on:
  the three fields of the constructor, the environment, the abort controllers whose
  \<open>abort()\<close> has been called, the number of abort controllers created, the calls of
  \<open>query\<close> made, the events sent to the renderer and the detached promises.
  \<open>runningFeatures\<close> is a JavaScript \<open>Map\<close>: an association list in insertion order
  with one entry per key.
\<close>

record world =
  runningFeatures :: "(string \<times> execution) list"
  autoLoopRunning :: bool
  autoLoopAbortController :: "nat option"
  env :: environment
  aborted :: "nat set"
  controllers :: nat
  queries :: "query_request list"
  events :: "event list"
  detached :: "promise list"

text \<open>The constructor.\<close>

definition constructor :: "environment \<Rightarrow> world" where
  "constructor e =
     \<lparr>runningFeatures = [], autoLoopRunning = False, autoLoopAbortController = None,
      env = e, aborted = {}, controllers = 0, queries = [], events = [], detached = []\<rparr>"

definition has :: "string \<Rightarrow> world \<Rightarrow> bool" where
  "has featureId w \<longleftrightarrow> map_of (runningFeatures w) featureId \<noteq> None"

definition register :: "string \<Rightarrow> string \<Rightarrow> world \<Rightarrow> world" where
  "register featureId path w =
     w\<lparr>runningFeatures :=
         AList.update featureId \<lparr>abortController = None, query = None, projectPath = path\<rparr>
           (runningFeatures w)\<rparr>"

definition unregister :: "string \<Rightarrow> world \<Rightarrow> world" where
  "unregister featureId w = w\<lparr>runningFeatures := AList.delete featureId (runningFeatures w)\<rparr>"

definition sendToRenderer :: "event \<Rightarrow> world \<Rightarrow> world" where
  "sendToRenderer ev w = w\<lparr>events := events w @ [ev]\<rparr>"

section \<open>Feature store\<close>

definition generated_id :: "nat \<Rightarrow> nat \<Rightarrow> string" where
  "generated_id index now = ''feature-'' @ string_of_nat index @ ''-'' @ string_of_nat now"

text \<open>\<open>f.id || `feature-${index}-${Date.now()}`\<close>: a missing or empty id is falsy.\<close>

definition id_or_generated :: "string option \<Rightarrow> nat \<Rightarrow> nat \<Rightarrow> string" where
  "id_or_generated i index now =
     (case i of
        None \<Rightarrow> generated_id index now
      | Some s \<Rightarrow> if s = [] then generated_id index now else s)"

definition with_id :: "nat \<Rightarrow> nat \<times> raw_feature \<Rightarrow> feature" where
  "with_id now p =
     (case p of (index, f) \<Rightarrow>
        \<lparr>f_id = id_or_generated (f_id f) index now, category = category f,
         description = description f, steps = steps f, status = status f,
         transient = transient f\<rparr>)"

definition loadFeatures :: "string \<Rightarrow> world \<Rightarrow> feature list" where
  "loadFeatures path w =
     (case feature_list_json (env w) path of
        FeatureArray features \<Rightarrow> map (with_id (clock (env w))) (enumerate 0 features)
      | Unreadable \<Rightarrow> []
      | Unparseable \<Rightarrow> [])"

definition find_feature :: "string \<Rightarrow> feature list \<Rightarrow> feature option" where
  "find_feature featureId features = find (\<lambda>f. f_id f = featureId) features"

text \<open>\<open>selectNextFeature\<close>: the first record whose status is not \<open>verified\<close>.\<close>

definition selectNextFeature :: "feature list \<Rightarrow> feature option" where
  "selectNextFeature features = find (\<lambda>f. status f \<noteq> Some ''verified'') features"

section \<open>Execution log\<close>

text \<open>
  \<open>fs.readFile\<close> of a log file; \<open>None\<close> stands for a raise: the file is absent or it
  cannot be read.
\<close>

definition readFile_log :: "string \<Rightarrow> string \<Rightarrow> world \<Rightarrow> string option" where
  "readFile_log path featureId w =
     (if log_read_error (env w) (path, featureId) then None
      else agents_context (env w) (path, featureId))"

text \<open>\<open>readContextFile\<close> returns \<open>null\<close> when the read raises.\<close>

definition readContextFile :: "string \<Rightarrow> string \<Rightarrow> world \<Rightarrow> string option" where
  "readContextFile path featureId w = readFile_log path featureId w"

text \<open>
  \<open>writeToContextFile\<close> raises nothing. When the directory cannot be made or the file
  cannot be written, \<open>mkdir\<close> or both calls of \<open>writeFile\<close> raise, the outer \<open>catch\<close> only
  writes to the console, and the file is as it was (absent, if it was absent).
  Otherwise the content is appended to what the read returns, and when the read raises
  the inner \<open>catch\<close> writes the content alone.
\<close>

definition writeToContextFile :: "string \<Rightarrow> string \<Rightarrow> string \<Rightarrow> world \<Rightarrow> world" where
  "writeToContextFile path featureId content w =
     (if path = [] then w
      else if log_write_error (env w) (path, featureId) then w
      else w\<lparr>env := (env w)\<lparr>agents_context := (agents_context (env w))
             ((path, featureId) \<mapsto>
                (case readFile_log path featureId w of
                   Some existing \<Rightarrow> existing @ content
                 | None \<Rightarrow> content))\<rparr>\<rparr>)"

text \<open>
  \<open>fs.unlink\<close> of a log file: it raises \<open>ENOENT\<close> when the file is absent, the
  environment's error code when it has one, and removes the file otherwise.
\<close>

definition unlink :: "string \<Rightarrow> string \<Rightarrow> world \<Rightarrow> (string + unit) \<times> world" where
  "unlink path featureId w =
     (case agents_context (env w) (path, featureId) of
        None \<Rightarrow> (Inl ''ENOENT'', w)
      | Some _ \<Rightarrow>
          (case unlink_error (env w) (path, featureId) of
             Some code \<Rightarrow> (Inl code, w)
           | None \<Rightarrow>
               (Inr (), w\<lparr>env := (env w)\<lparr>agents_context :=
                          (agents_context (env w)) ((path, featureId) := None)\<rparr>\<rparr>)))"

text \<open>
  \<open>deleteContextFile\<close> catches whatever \<open>fs.unlink\<close> raises: \<open>ENOENT\<close> is ignored and
  any other code is only written to the console.
\<close>

definition deleteContextFile :: "string \<Rightarrow> string \<Rightarrow> world \<Rightarrow> world" where
  "deleteContextFile path featureId w =
     (if path = [] then w
      else (case unlink path featureId w of
              (Inr u, w') \<Rightarrow> w'
            | (Inl code, w') \<Rightarrow> w'))"

section \<open>Status update\<close>

text \<open>\<open>feature.status = status\<close> on the record that \<open>find\<close> returned: the first with the id.\<close>

fun assign_status :: "string \<Rightarrow> string \<Rightarrow> feature list \<Rightarrow> feature list" where
  "assign_status featureId s [] = []"
| "assign_status featureId s (f # fs) =
     (if f_id f = featureId then f\<lparr>status := Some s\<rparr> # fs
      else f # assign_status featureId s fs)"

definition toSave :: "feature \<Rightarrow> raw_feature" where
  "toSave f =
     \<lparr>f_id = Some (f_id f), category = category f, description = description f,
      steps = steps f, status = status f, transient = []\<rparr>"

definition writeFeatures :: "string \<Rightarrow> raw_feature list \<Rightarrow> world \<Rightarrow> (js_error + unit) \<times> world" where
  "writeFeatures path records w =
     (case writeFile_error (env w) path of
        Some error \<Rightarrow> (Inl error, w)
      | None \<Rightarrow>
          (Inr (), w\<lparr>env := (env w)\<lparr>feature_list_json :=
                     (feature_list_json (env w)) (path := FeatureArray records)\<rparr>\<rparr>))"

definition updateFeatureStatus ::
  "string \<Rightarrow> string \<Rightarrow> string \<Rightarrow> world \<Rightarrow> (js_error + unit) \<times> world" where
  "updateFeatureStatus featureId s path w =
     (let features = loadFeatures path w in
      case find_feature featureId features of
        None \<Rightarrow> (Inr (), w)
      | Some feature \<Rightarrow>
          (case writeFeatures path (map toSave (assign_status featureId s features)) w of
             (Inl error, w1) \<Rightarrow> (Inl error, w1)
           | (Inr u, w1) \<Rightarrow>
               if s = ''verified'' then (Inr (), deleteContextFile path featureId w1)
               else (Inr (), w1)))"

text \<open>The status of the feature as a fresh \<open>loadFeatures\<close> followed by \<open>find\<close> shows it.\<close>

definition stored_status :: "string \<Rightarrow> string \<Rightarrow> world \<Rightarrow> string option" where
  "stored_status path featureId w =
     (case find_feature featureId (loadFeatures path w) of
        None \<Rightarrow> None
      | Some f \<Rightarrow> status f)"

definition listed :: "string \<Rightarrow> string \<Rightarrow> world \<Rightarrow> bool" where
  "listed path featureId w \<longleftrightarrow> find_feature featureId (loadFeatures path w) \<noteq> None"

section \<open>Starting and stopping the loop\<close>

definition abort_entry :: "nat set \<Rightarrow> string \<times> execution \<Rightarrow> nat set" where
  "abort_entry ab entry =
     (case abortController (snd entry) of
        Some c \<Rightarrow> insert c ab
      | None \<Rightarrow> ab)"

text \<open>\<open>stop\<close> raises nothing; the boolean is the \<open>success\<close> field of what it returns.\<close>

definition stop :: "world \<Rightarrow> bool \<times> world" where
  "stop w =
     (let w1 = w\<lparr>autoLoopRunning := False\<rparr>;
          w2 = (case autoLoopAbortController w1 of
                  Some c \<Rightarrow> w1\<lparr>aborted := insert c (aborted w1), autoLoopAbortController := None\<rparr>
                | None \<Rightarrow> w1);
          w3 = w2\<lparr>aborted := foldl abort_entry (aborted w2) (runningFeatures w2)\<rparr>;
          w4 = w3\<lparr>runningFeatures := []\<rparr>
      in (True, w4))"



section \<open>The delegate\<close>

text \<open>
  What the engine sees of a message of the stream: the content blocks of an assistant
  message, or any other message.
\<close>

datatype block = TextBlock string | ToolUseBlock string | OtherBlock

datatype sdk_message = AssistantMessage "block list" | OtherMessage

text \<open>The values the \<open>UpdateFeatureStatus\<close> tool accepts for \<open>status\<close>.\<close>

datatype status_enum = Backlog | InProgress | Verified

fun status_string :: "status_enum \<Rightarrow> string" where
  "status_string Backlog = ''backlog''"
| "status_string InProgress = ''in_progress''"
| "status_string Verified = ''verified''"

text \<open>
  One run of the delegate, as the engine meets it: what happens while the stream is
  consumed, and how the stream ends. \<open>Yield\<close> hands a message to the \<open>for await\<close> loop;
  \<open>ToolCall\<close> is the delegate calling the \<open>UpdateFeatureStatus\<close> tool, which the service
  handles in-process; \<open>EnvStep\<close> is anything that changes the environment while the
  engine is suspended (the delegate's own file writes, time passing); \<open>StopRequested\<close> is
  a call of \<open>stop()\<close> arriving while the engine is suspended. The stream ends normally or
  raises. The delegate is a function of the calls of \<open>query\<close> made so far, the last one
  being the current call.
\<close>

datatype script_item =
    Yield sdk_message
  | ToolCall string status_enum
  | EnvStep "environment \<Rightarrow> environment"
  | StopRequested

datatype stream_end = EndOfStream | Raises js_error

type_synonym agent = "query_request list \<Rightarrow> script_item list \<times> stream_end"

text \<open>The handler of the tool: it reports a failure to the delegate and raises nothing.\<close>

definition UpdateFeatureStatus_tool :: "string \<Rightarrow> string \<Rightarrow> status_enum \<Rightarrow> world \<Rightarrow> world" where
  "UpdateFeatureStatus_tool path featureId s w =
     (case updateFeatureStatus featureId (status_string s) path w of
        (Inr u, w') \<Rightarrow> w'
      | (Inl error, w') \<Rightarrow> w')"

section \<open>Feature state machine\<close>

record run_result =
  passes :: bool
  message :: string

definition nl :: string where
  "nl = [CHR 0x0A]"

definition toolMsg :: "string \<Rightarrow> string" where
  "toolMsg name = nl @ sym_tool @ '' Tool: '' @ name @ nl"

text \<open>Assignments to the fields of the \<open>execution\<close> object held by the registry.\<close>

definition map_execution :: "string \<Rightarrow> (execution \<Rightarrow> execution) \<Rightarrow> world \<Rightarrow> world" where
  "map_execution featureId f w =
     w\<lparr>runningFeatures := AList.map_entry featureId f (runningFeatures w)\<rparr>"

definition clear_execution :: "string \<Rightarrow> world \<Rightarrow> world" where
  "clear_execution featureId w =
     map_execution featureId (\<lambda>x. x\<lparr>abortController := None, query := None\<rparr>) w"

text \<open>
  \<open>new AbortController()\<close> stored in the execution, then \<open>query({prompt, options})\<close>
  stored in the execution.
\<close>

definition new_AbortController :: "string \<Rightarrow> world \<Rightarrow> world" where
  "new_AbortController featureId w =
     map_execution featureId (\<lambda>x. x\<lparr>abortController := Some (controllers w)\<rparr>)
       (w\<lparr>controllers := Suc (controllers w)\<rparr>)"

text \<open>
  The abort controller created last; controllers are numbered from 0 in the order of
  their creation. It is read after \<open>new_AbortController\<close>, when there is one.
\<close>

definition latest_controller :: "world \<Rightarrow> nat" where
  "latest_controller w = controllers w - 1"

definition send_query :: "string \<Rightarrow> query_request \<Rightarrow> world \<Rightarrow> world" where
  "send_query featureId request w =
     map_execution featureId (\<lambda>x. x\<lparr>query := Some (length (queries w))\<rparr>)
       (w\<lparr>queries := queries w @ [request]\<rparr>)"

text \<open>The body of the inner loop over the content blocks, in resume and verification.\<close>

definition stream_block :: "string \<Rightarrow> string \<Rightarrow> string \<times> world \<Rightarrow> block \<Rightarrow> string \<times> world" where
  "stream_block path featureId acc b =
     (case acc of (responseText, w) \<Rightarrow>
        (case b of
           TextBlock text \<Rightarrow>
             (responseText @ text,
              sendToRenderer (auto_mode_progress featureId text)
                (writeToContextFile path featureId text w))
         | ToolUseBlock name \<Rightarrow>
             (responseText,
              sendToRenderer (auto_mode_tool featureId name)
                (writeToContextFile path featureId (toolMsg name) w))
         | OtherBlock \<Rightarrow> (responseText, w)))"

text \<open>The same in \<open>implementFeature\<close>, which announces the first tool use.\<close>

definition implement_block ::
  "string \<Rightarrow> string \<Rightarrow> (string \<times> bool) \<times> world \<Rightarrow> block \<Rightarrow> (string \<times> bool) \<times> world" where
  "implement_block path featureId acc b =
     (case acc of ((responseText, hasStartedToolUse), w) \<Rightarrow>
        (case b of
           TextBlock text \<Rightarrow>
             ((responseText @ text, hasStartedToolUse),
              sendToRenderer (auto_mode_progress featureId text)
                (writeToContextFile path featureId text w))
         | ToolUseBlock name \<Rightarrow>
             (let w1 = (if \<not> hasStartedToolUse
                        then sendToRenderer
                               (auto_mode_progress featureId (''Starting code implementation...'' @ nl))
                               (writeToContextFile path featureId
                                  (''Starting code implementation...'' @ nl) w)
                        else w)
              in ((responseText, True),
                  sendToRenderer (auto_mode_tool featureId name)
                    (writeToContextFile path featureId (toolMsg name) w1)))
         | OtherBlock \<Rightarrow> ((responseText, hasStartedToolUse), w)))"

text \<open>
  \<open>for await (const msg of currentQuery)\<close>: the loop leaves with \<open>break\<close> when a message
  arrives after the feature has left the registry; a raise of the stream leaves the
  \<open>try\<close> block and loses the accumulated text.
\<close>

fun for_await ::
  "('a \<times> world \<Rightarrow> block \<Rightarrow> 'a \<times> world) \<Rightarrow> string \<Rightarrow> string \<Rightarrow> script_item list \<Rightarrow> stream_end
     \<Rightarrow> 'a \<times> world \<Rightarrow> (js_error + 'a) \<times> world" where
  "for_await h path featureId [] EndOfStream (a, w) = (Inr a, w)"
| "for_await h path featureId [] (Raises error) (a, w) = (Inl error, w)"
| "for_await h path featureId (Yield msg # rest) e (a, w) =
     (if \<not> has featureId w then (Inr a, w)
      else for_await h path featureId rest e
             (case msg of
                AssistantMessage content \<Rightarrow> foldl h (a, w) content
              | OtherMessage \<Rightarrow> (a, w)))"
| "for_await h path featureId (ToolCall i s # rest) e (a, w) =
     for_await h path featureId rest e (a, UpdateFeatureStatus_tool path i s w)"
| "for_await h path featureId (EnvStep f # rest) e (a, w) =
     for_await h path featureId rest e (a, w\<lparr>env := f (env w)\<rparr>)"
| "for_await h path featureId (StopRequested # rest) e (a, w) =
     for_await h path featureId rest e (a, snd (stop w))"

definition all_tools :: "string list" where
  "all_tools = [''Read'', ''Write'', ''Edit'', ''Glob'', ''Grep'', ''Bash'', ''WebSearch'',
                ''WebFetch'', ''mcp__automaker-tools__UpdateFeatureStatus'']"

definition verification_tools :: "string list" where
  "verification_tools = [''Read'', ''Write'', ''Edit'', ''Glob'', ''Grep'', ''Bash'',
                         ''mcp__automaker-tools__UpdateFeatureStatus'']"

subsection \<open>implementFeature\<close>

definition implement_planning :: "feature \<Rightarrow> string \<Rightarrow> world \<Rightarrow> world" where
  "implement_planning feature path w =
     (let w1 = writeToContextFile path (f_id feature)
                 (sym_clipboard @ '' Planning implementation for: '' @ description feature @ nl) w;
          w2 = sendToRenderer
                 (auto_mode_phase (f_id feature) ''planning''
                    (''Planning implementation for: '' @ description feature)) w1;
          w3 = new_AbortController (f_id feature) w2
      in sendToRenderer
           (auto_mode_progress (f_id feature)
              ''Analyzing codebase structure and creating implementation plan...'') w3)"

definition implement_request :: "feature \<Rightarrow> world \<Rightarrow> query_request" where
  "implement_request feature w =
     \<lparr>q_prompt = FeaturePrompt feature, q_systemPrompt = CodingPrompt,
      q_allowedTools = all_tools, q_abortController = latest_controller w\<rparr>"

definition implement_action ::
  "agent \<Rightarrow> feature \<Rightarrow> string \<Rightarrow> world \<Rightarrow> (js_error + string \<times> bool) \<times> world" where
  "implement_action ag feature path w =
     (let w1 = writeToContextFile path (f_id feature)
                 (sym_bolt @ '' Executing implementation for: '' @ description feature @ nl) w;
          w2 = sendToRenderer
                 (auto_mode_phase (f_id feature) ''action''
                    (''Executing implementation for: '' @ description feature)) w1;
          w3 = send_query (f_id feature) (implement_request feature w2) w2
      in for_await (implement_block path (f_id feature)) path (f_id feature)
           (fst (ag (queries w3))) (snd (ag (queries w3))) (([], False), w3))"

definition implement_verification ::
  "feature \<Rightarrow> string \<Rightarrow> string \<Rightarrow> world \<Rightarrow> run_result \<times> world" where
  "implement_verification feature path responseText w =
     (let w1 = writeToContextFile path (f_id feature)
                 (sym_check_box @ '' Verifying implementation for: '' @ description feature @ nl) w;
          w2 = sendToRenderer
                 (auto_mode_phase (f_id feature) ''verification''
                    (''Verifying implementation for: '' @ description feature)) w1;
          checkingMsg = ''Verifying implementation and checking test results...'' @ nl;
          w3 = sendToRenderer (auto_mode_progress (f_id feature) checkingMsg)
                 (writeToContextFile path (f_id feature) checkingMsg w2);
          ok = (stored_status path (f_id feature) w3 = Some ''verified'');
          resultMsg = (if ok then sym_check @ '' Verification successful: All tests passed'' @ nl
                       else sym_cross @ '' Verification: Tests need attention'' @ nl);
          w4 = sendToRenderer (auto_mode_progress (f_id feature) resultMsg)
                 (writeToContextFile path (f_id feature) resultMsg w3)
      in (\<lparr>passes = ok, message = take 500 responseText\<rparr>, w4))"

definition implementFeature ::
  "agent \<Rightarrow> feature \<Rightarrow> string \<Rightarrow> world \<Rightarrow> (js_error + run_result) \<times> world" where
  "implementFeature ag feature path w =
     (if \<not> has (f_id feature) w
      then (Inl (Error_new (''Feature '' @ f_id feature @ '' not registered in runningFeatures'')), w)
      else
        (case implement_action ag feature path (implement_planning feature path w) of
           (Inr (responseText, hasStartedToolUse), w1) \<Rightarrow>
             (case implement_verification feature path responseText
                     (clear_execution (f_id feature) w1) of
                (result, w2) \<Rightarrow> (Inr result, w2))
         | (Inl error, w1) \<Rightarrow>
             if is_abort error
             then (Inr \<lparr>passes = False, message = ''Auto mode aborted''\<rparr>,
                   clear_execution (f_id feature) w1)
             else (Inl error, clear_execution (f_id feature) w1)))"

subsection \<open>verifyFeatureTests\<close>

definition verify_request :: "feature \<Rightarrow> world \<Rightarrow> query_request" where
  "verify_request feature w =
     \<lparr>q_prompt = VerificationPrompt feature, q_systemPrompt = VerificationSystemPrompt,
      q_allowedTools = verification_tools, q_abortController = latest_controller w\<rparr>"

definition verify_action ::
  "agent \<Rightarrow> feature \<Rightarrow> string \<Rightarrow> world \<Rightarrow> (js_error + string) \<times> world" where
  "verify_action ag feature path w =
     (let w1 = writeToContextFile path (f_id feature)
                 (nl @ sym_check_box @ '' Verifying tests for: '' @ description feature @ nl) w;
          w2 = sendToRenderer
                 (auto_mode_phase (f_id feature) ''verification''
                    (''Verifying tests for: '' @ description feature)) w1;
          w3 = new_AbortController (f_id feature) w2;
          runningTestsMsg = ''Running Playwright tests to verify feature implementation...'' @ nl;
          w4 = sendToRenderer (auto_mode_progress (f_id feature) runningTestsMsg)
                 (writeToContextFile path (f_id feature) runningTestsMsg w3);
          w5 = send_query (f_id feature) (verify_request feature w4) w4
      in for_await (stream_block path (f_id feature)) path (f_id feature)
           (fst (ag (queries w5))) (snd (ag (queries w5))) ([], w5))"

definition verify_check :: "feature \<Rightarrow> string \<Rightarrow> string \<Rightarrow> world \<Rightarrow> run_result \<times> world" where
  "verify_check feature path responseText w =
     (let ok = (stored_status path (f_id feature) w = Some ''verified'');
          finalMsg = (if ok then sym_check @ '' Verification successful: All tests passed'' @ nl
                      else sym_cross
                           @ '' Tests failed or not all passing - feature remains in progress''
                           @ nl);
          w1 = sendToRenderer (auto_mode_progress (f_id feature) finalMsg)
                 (writeToContextFile path (f_id feature) finalMsg w)
      in (\<lparr>passes = ok, message = take 500 responseText\<rparr>, w1))"

definition verifyFeatureTests ::
  "agent \<Rightarrow> feature \<Rightarrow> string \<Rightarrow> world \<Rightarrow> (js_error + run_result) \<times> world" where
  "verifyFeatureTests ag feature path w =
     (if \<not> has (f_id feature) w
      then (Inl (Error_new (''Feature '' @ f_id feature @ '' not registered in runningFeatures'')), w)
      else
        (case verify_action ag feature path w of
           (Inr responseText, w1) \<Rightarrow>
             (case verify_check feature path responseText (clear_execution (f_id feature) w1) of
                (result, w2) \<Rightarrow> (Inr result, w2))
         | (Inl error, w1) \<Rightarrow>
             if is_abort error
             then (Inr \<lparr>passes = False, message = ''Verification aborted''\<rparr>,
                   clear_execution (f_id feature) w1)
             else (Inl error, clear_execution (f_id feature) w1)))"

subsection \<open>resumeFeatureWithContext\<close>

definition resume_request :: "feature \<Rightarrow> string option \<Rightarrow> world \<Rightarrow> query_request" where
  "resume_request feature previousContext w =
     \<lparr>q_prompt = ResumePrompt feature previousContext, q_systemPrompt = VerificationSystemPrompt,
      q_allowedTools = all_tools, q_abortController = latest_controller w\<rparr>"

definition resume_action ::
  "agent \<Rightarrow> feature \<Rightarrow> string \<Rightarrow> string option \<Rightarrow> world \<Rightarrow> (js_error + string) \<times> world" where
  "resume_action ag feature path previousContext w =
     (let w1 = writeToContextFile path (f_id feature)
                 (nl @ sym_retry @ '' Resuming implementation for: '' @ description feature @ nl) w;
          w2 = sendToRenderer
                 (auto_mode_phase (f_id feature) ''action''
                    (''Resuming implementation for: '' @ description feature)) w1;
          w3 = new_AbortController (f_id feature) w2;
          w4 = send_query (f_id feature) (resume_request feature previousContext w3) w3
      in for_await (stream_block path (f_id feature)) path (f_id feature)
           (fst (ag (queries w4))) (snd (ag (queries w4))) ([], w4))"

definition resume_check :: "feature \<Rightarrow> string \<Rightarrow> string \<Rightarrow> world \<Rightarrow> run_result \<times> world" where
  "resume_check feature path responseText w =
     (let ok = (stored_status path (f_id feature) w = Some ''verified'');
          finalMsg = (if ok then sym_check @ '' Feature successfully verified and completed'' @ nl
                      else sym_warning
                           @ '' Feature still in progress - may need additional work'' @ nl);
          w1 = sendToRenderer (auto_mode_progress (f_id feature) finalMsg)
                 (writeToContextFile path (f_id feature) finalMsg w)
      in (\<lparr>passes = ok, message = take 500 responseText\<rparr>, w1))"

definition resumeFeatureWithContext ::
  "agent \<Rightarrow> feature \<Rightarrow> string \<Rightarrow> string option \<Rightarrow> world \<Rightarrow> (js_error + run_result) \<times> world" where
  "resumeFeatureWithContext ag feature path previousContext w =
     (if \<not> has (f_id feature) w
      then (Inl (Error_new (''Feature '' @ f_id feature @ '' not registered in runningFeatures'')), w)
      else
        (case resume_action ag feature path previousContext w of
           (Inr responseText, w1) \<Rightarrow>
             (case resume_check feature path responseText (clear_execution (f_id feature) w1) of
                (result, w2) \<Rightarrow> (Inr result, w2))
         | (Inl error, w1) \<Rightarrow>
             if is_abort error
             then (Inr \<lparr>passes = False, message = ''Resume aborted''\<rparr>,
                   clear_execution (f_id feature) w1)
             else (Inl error, clear_execution (f_id feature) w1)))"

section \<open>Running, verifying and resuming one feature\<close>

text \<open>The value \<open>{ success: true, passes: ... }\<close> that the three requests return.\<close>

datatype outcome = Outcome (success: bool) (outcome_passes: bool)

text \<open>
  The \<open>catch\<close> and \<open>finally\<close> blocks shared by the three requests: an error of the
  body is reported to the renderer and raised again, and the registry entry is removed
  in both cases.
\<close>

definition catch_finally ::
  "string \<Rightarrow> (js_error + outcome) \<times> world \<Rightarrow> (js_error + outcome) \<times> world" where
  "catch_finally featureId r =
     (case r of
        (Inl error, w) \<Rightarrow>
          (Inl error,
           unregister featureId (sendToRenderer (auto_mode_error (err_message error) featureId) w))
      | (Inr v, w) \<Rightarrow> (Inr v, unregister featureId w))"

definition already_running :: "string \<Rightarrow> js_error" where
  "already_running featureId = Error_new (''Feature '' @ featureId @ '' is already running'')"

definition not_found :: "string \<Rightarrow> js_error" where
  "not_found featureId = Error_new (''Feature '' @ featureId @ '' not found'')"

text \<open>The end of the three \<open>try\<close> blocks: the status write and the completion event.\<close>

definition complete ::
  "string \<Rightarrow> feature \<Rightarrow> string \<Rightarrow> string \<Rightarrow> run_result \<Rightarrow> world \<Rightarrow> (js_error + outcome) \<times> world" where
  "complete featureId feature newStatus path result w =
     (case updateFeatureStatus featureId newStatus path w of
        (Inl error, w1) \<Rightarrow> (Inl error, w1)
      | (Inr u, w1) \<Rightarrow>
          (Inr (Outcome True (passes result)),
           sendToRenderer
             (auto_mode_feature_complete (f_id feature) (passes result) (message result)) w1))"

subsection \<open>runFeature\<close>

definition runFeature_try :: "agent \<Rightarrow> string \<Rightarrow> string \<Rightarrow> world \<Rightarrow> (js_error + outcome) \<times> world" where
  "runFeature_try ag path featureId w =
     (case find_feature featureId (loadFeatures path w) of
        None \<Rightarrow> (Inl (not_found featureId), w)
      | Some feature \<Rightarrow>
          (case updateFeatureStatus featureId ''in_progress'' path w of
             (Inl error, w1) \<Rightarrow> (Inl error, w1)
           | (Inr u, w1) \<Rightarrow>
               (case implementFeature ag feature path
                       (sendToRenderer (auto_mode_feature_start (f_id feature) feature) w1) of
                  (Inl error, w2) \<Rightarrow> (Inl error, w2)
                | (Inr result, w2) \<Rightarrow>
                    complete (f_id feature) feature
                      (if passes result then ''verified'' else ''backlog'') path result w2)))"

definition runFeature :: "agent \<Rightarrow> string \<Rightarrow> string \<Rightarrow> world \<Rightarrow> (js_error + outcome) \<times> world" where
  "runFeature ag path featureId w =
     (if has featureId w then (Inl (already_running featureId), w)
      else catch_finally featureId (runFeature_try ag path featureId (register featureId path w)))"

subsection \<open>verifyFeature\<close>

definition verifyFeature_try ::
  "agent \<Rightarrow> string \<Rightarrow> string \<Rightarrow> world \<Rightarrow> (js_error + outcome) \<times> world" where
  "verifyFeature_try ag path featureId w =
     (case find_feature featureId (loadFeatures path w) of
        None \<Rightarrow> (Inl (not_found featureId), w)
      | Some feature \<Rightarrow>
          (case verifyFeatureTests ag feature path
                  (sendToRenderer (auto_mode_feature_start (f_id feature) feature) w) of
             (Inl error, w1) \<Rightarrow> (Inl error, w1)
           | (Inr result, w1) \<Rightarrow>
               complete featureId feature
                 (if passes result then ''verified'' else ''in_progress'') path result w1))"

definition verifyFeature :: "agent \<Rightarrow> string \<Rightarrow> string \<Rightarrow> world \<Rightarrow> (js_error + outcome) \<times> world" where
  "verifyFeature ag path featureId w =
     (if has featureId w then (Inl (already_running featureId), w)
      else catch_finally featureId
             (verifyFeature_try ag path featureId (register featureId path w)))"

subsection \<open>resumeFeature\<close>

definition maxAttempts :: nat where
  "maxAttempts = 3"

definition retry_marker :: "nat \<Rightarrow> string" where
  "retry_marker attempts =
     nl @ nl @ sym_retry @ '' Auto-retry #'' @ string_of_nat attempts
     @ '' - Continuing implementation...'' @ nl @ nl"

definition retry_notice :: "nat \<Rightarrow> string" where
  "retry_notice attempts =
     nl @ sym_retry @ '' Auto-retry #'' @ string_of_nat attempts
     @ '' - Agent ended early, continuing...'' @ nl"

text \<open>
  The loop \<open>while (!finalResult.passes && attempts < maxAttempts)\<close>, with its \<open>break\<close>
  when the reloaded feature is absent or not \<open>in_progress\<close>.
\<close>

function retry_loop ::
  "agent \<Rightarrow> feature \<Rightarrow> string \<Rightarrow> string \<Rightarrow> nat \<Rightarrow> run_result \<Rightarrow> world
     \<Rightarrow> (js_error + run_result) \<times> world" where
  "retry_loop ag feature path featureId attempts finalResult w =
     (if \<not> passes finalResult \<and> attempts < maxAttempts then
        (if stored_status path featureId w = Some ''in_progress'' then
           (case resumeFeatureWithContext ag feature path
                   (readContextFile path featureId
                      (sendToRenderer
                         (auto_mode_progress (f_id feature) (retry_notice (Suc attempts)))
                         (writeToContextFile path featureId (retry_marker (Suc attempts)) w)))
                   (sendToRenderer
                      (auto_mode_progress (f_id feature) (retry_notice (Suc attempts)))
                      (writeToContextFile path featureId (retry_marker (Suc attempts)) w)) of
              (Inl error, w1) \<Rightarrow> (Inl error, w1)
            | (Inr result, w1) \<Rightarrow>
                retry_loop ag feature path featureId (Suc attempts) result w1)
         else (Inr finalResult, w))
      else (Inr finalResult, w))"
  by pat_completeness auto
termination
  by (relation "measure (\<lambda>(ag, feature, path, featureId, attempts, finalResult, w).
                  maxAttempts - attempts)") auto

declare retry_loop.simps [simp del]

definition resumeFeature_try ::
  "agent \<Rightarrow> string \<Rightarrow> string \<Rightarrow> world \<Rightarrow> (js_error + outcome) \<times> world" where
  "resumeFeature_try ag path featureId w =
     (case find_feature featureId (loadFeatures path w) of
        None \<Rightarrow> (Inl (not_found featureId), w)
      | Some feature \<Rightarrow>
          (case resumeFeatureWithContext ag feature path
                  (readContextFile path featureId
                     (sendToRenderer (auto_mode_feature_start (f_id feature) feature) w))
                  (sendToRenderer (auto_mode_feature_start (f_id feature) feature) w) of
             (Inl error, w1) \<Rightarrow> (Inl error, w1)
           | (Inr result, w1) \<Rightarrow>
               (case retry_loop ag feature path featureId 0 result w1 of
                  (Inl error, w2) \<Rightarrow> (Inl error, w2)
                | (Inr finalResult, w2) \<Rightarrow>
                    complete featureId feature
                      (if passes finalResult then ''verified'' else ''in_progress'')
                      path finalResult w2)))"

definition resumeFeature :: "agent \<Rightarrow> string \<Rightarrow> string \<Rightarrow> world \<Rightarrow> (js_error + outcome) \<times> world" where
  "resumeFeature ag path featureId w =
     (if has featureId w then (Inl (already_running featureId), w)
      else catch_finally featureId
             (resumeFeature_try ag path featureId (register featureId path w)))"

section \<open>The autonomous loop\<close>

text \<open>
  One iteration of \<open>runLoop\<close> after a feature was selected and found not to be running:
  the body of the \<open>try\<close> block from the start event to the completion event.
\<close>

definition runLoop_try :: "agent \<Rightarrow> string \<Rightarrow> feature \<Rightarrow> world \<Rightarrow> (js_error + outcome) \<times> world" where
  "runLoop_try ag path nextFeature w =
     (case implementFeature ag nextFeature path
             (register (f_id nextFeature) path
                (sendToRenderer (auto_mode_feature_start (f_id nextFeature) nextFeature) w)) of
        (Inl error, w1) \<Rightarrow> (Inl error, w1)
      | (Inr result, w1) \<Rightarrow>
          complete (f_id nextFeature) nextFeature
            (if passes result then ''verified'' else ''backlog'') path result w1)"

text \<open>
  \<open>runLoop\<close>. The loop need not end (a feature that never becomes \<open>verified\<close> is selected
  again), so the model takes fuel, one unit for each test of the loop condition, and
  returns \<open>None\<close> when the fuel runs out. The loop leaves when the flag is cleared or
  when no feature is left; a feature that is already running is skipped after a sleep;
  an error of an iteration is reported and the loop goes on.
\<close>

fun runLoop :: "nat \<Rightarrow> agent \<Rightarrow> string \<Rightarrow> world \<Rightarrow> world option" where
  "runLoop 0 ag path w = None"
| "runLoop (Suc fuel) ag path w =
     (if \<not> autoLoopRunning w then Some (w\<lparr>autoLoopRunning := False\<rparr>)
      else
        (case selectNextFeature (loadFeatures path w) of
           None \<Rightarrow>
             Some ((sendToRenderer (auto_mode_complete ''All features completed!'') w)
                     \<lparr>autoLoopRunning := False\<rparr>)
         | Some nextFeature \<Rightarrow>
             if has (f_id nextFeature) w then runLoop fuel ag path w
             else
               (case runLoop_try ag path nextFeature w of
                  (Inr v, w1) \<Rightarrow> runLoop fuel ag path (unregister (f_id nextFeature) w1)
                | (Inl error, w1) \<Rightarrow>
                    runLoop fuel ag path
                      (unregister (f_id nextFeature)
                         (sendToRenderer
                            (auto_mode_error (err_message error) (f_id nextFeature)) w1)))))"

section \<open>Notions used in the statements\<close>

text \<open>What rewriting the feature list file keeps of a loaded record.\<close>

definition strip :: "feature \<Rightarrow> feature" where
  "strip f = f\<lparr>transient := []\<rparr>"

text \<open>
  Whether the \<open>for await\<close> loop consumes a stream to its end: it does not when a message
  arrives after a stop request has emptied the registry. The flag says whether the
  feature is registered when the stream starts.
\<close>

fun uninterrupted :: "bool \<Rightarrow> script_item list \<Rightarrow> bool" where
  "uninterrupted registered [] = True"
| "uninterrupted registered (Yield msg # rest) = (registered \<and> uninterrupted registered rest)"
| "uninterrupted registered (StopRequested # rest) = uninterrupted False rest"
| "uninterrupted registered (ToolCall i s # rest) = uninterrupted registered rest"
| "uninterrupted registered (EnvStep f # rest) = uninterrupted registered rest"

text \<open>
  A delegate whose every resume attempt ends while the feature remains \<open>in_progress\<close>:
  from every state in which the feature is registered, stored as \<open>in_progress\<close> and the
  feature list is writable, an attempt returns a non-passing result and leaves the
  feature registered, stored as \<open>in_progress\<close> and the feature list writable.
\<close>

definition stays_in_progress :: "agent \<Rightarrow> string \<Rightarrow> string \<Rightarrow> bool" where
  "stays_in_progress ag path featureId \<longleftrightarrow>
     (\<forall>feature previousContext w.
        f_id feature = featureId \<and> has featureId w \<and>
        stored_status path featureId w = Some ''in_progress'' \<and>
        writeFile_error (env w) path = None \<longrightarrow>
        (case resumeFeatureWithContext ag feature path previousContext w of
           (Inr result, w') \<Rightarrow>
             \<not> passes result \<and> has featureId w' \<and>
             stored_status path featureId w' = Some ''in_progress'' \<and>
             writeFile_error (env w') path = None
         | (Inl error, w') \<Rightarrow> False))"

text \<open>
  A delegate script in which the status-update tool is never called and the environment
  does not act.
\<close>

fun silent :: "script_item list \<Rightarrow> bool" where
  "silent [] = True"
| "silent (Yield msg # rest) = silent rest"
| "silent (StopRequested # rest) = silent rest"
| "silent (ToolCall i s # rest) = False"
| "silent (EnvStep f # rest) = False"

text \<open>
  The log with key \<open>k\<close> is kept from one state to a later one: if it can be read in the
  first state, it can be read in the second, and what it held is the beginning of what
  it holds then.
\<close>

definition log_kept :: "string \<times> string \<Rightarrow> world \<Rightarrow> world \<Rightarrow> bool" where
  "log_kept k w w' \<longleftrightarrow>
     (\<not> log_read_error (env w) k \<longrightarrow>
        \<not> log_read_error (env w') k \<and>
        (\<forall>l. agents_context (env w) k = Some l \<longrightarrow>
             (\<exists>l'. agents_context (env w') k = Some (l @ l'))))"

section \<open>Example inputs\<close>

definition raw1 :: raw_feature where
  "raw1 = \<lparr>f_id = Some ''f1'', category = ''core'', description = ''first'', steps = [''a''],
           status = Some ''backlog'', transient = [(''note'', ''x'')]\<rparr>"

definition raw_noid :: raw_feature where
  "raw_noid = \<lparr>f_id = None, category = ''core'', description = ''second'', steps = [],
           status = None, transient = []\<rparr>"

definition env0 :: environment where
  "env0 = \<lparr>feature_list_json =
             (\<lambda>p. if p = ''/p'' then FeatureArray [raw1, raw_noid] else Unreadable),
           agents_context =
             (\<lambda>k. if k = (''/p'', ''ghost'') then Some ''old log''
                  else if k = (''/p'', ''f1'') then Some ''log of f1'' else None),
           writeFile_error = (\<lambda>p. None),
           unlink_error = (\<lambda>k. None),
           log_read_error = (\<lambda>k. False),
           log_write_error = (\<lambda>k. False),
           clock = 1700000000123\<rparr>"

definition w0 :: world where
  "w0 = constructor env0"

definition abort_error :: js_error where
  "abort_error = JsError True ''AbortError'' ''The operation was aborted''"

definition feature1 :: feature where
  "feature1 = \<lparr>f_id = ''f1'', category = ''core'', description = ''first'', steps = [''a''],
               status = Some ''backlog'', transient = [(''note'', ''x'')]\<rparr>"

definition aborting_agent :: agent where
  "aborting_agent qs =
     ([Yield (AssistantMessage [TextBlock ''working'']), ToolCall ''f1'' Verified, StopRequested],
      Raises abort_error)"

definition busy_world :: world where
  "busy_world =
     w0\<lparr>runningFeatures :=
          [(''f1'', \<lparr>abortController = Some 4, query = Some 2, projectPath = ''/p''\<rparr>),
           (''f2'', \<lparr>abortController = None, query = None, projectPath = ''/p''\<rparr>)],
        autoLoopRunning := True, controllers := 5\<rparr>"

definition quiet_agent :: agent where
  "quiet_agent qs =
     ([Yield (AssistantMessage [TextBlock ''thinking'', ToolUseBlock ''Read'']), Yield OtherMessage],
      EndOfStream)"

definition verifying_agent :: agent where
  "verifying_agent qs =
     ([Yield (AssistantMessage [TextBlock ''done'']), ToolCall ''f1'' Verified], EndOfStream)"

definition backlog_agent :: agent where
  "backlog_agent qs =
     ([Yield (AssistantMessage [TextBlock ''giving up'']), ToolCall ''f1'' Backlog], EndOfStream)"

definition w_in_progress :: world where
  "w_in_progress =
     constructor
       (env0\<lparr>feature_list_json :=
               (\<lambda>p. if p = ''/p''
                    then FeatureArray [raw1\<lparr>status := Some ''in_progress''\<rparr>, raw_noid]
                    else Unreadable)\<rparr>)"

section \<open>Loading the feature list\<close>

lemma id_or_generated_nonempty: "id_or_generated i index now \<noteq> []"
  by (simp add: id_or_generated_def generated_id_def split: option.splits)

lemma length_loadFeatures:
  "feature_list_json (env w) path = FeatureArray raw \<Longrightarrow> length (loadFeatures path w) = length raw"
  by (simp add: loadFeatures_def)

lemma nth_loadFeatures:
  "feature_list_json (env w) path = FeatureArray raw \<Longrightarrow> index < length raw \<Longrightarrow>
   f_id (loadFeatures path w ! index) = id_or_generated (f_id (raw ! index)) index (clock (env w))"
  by (simp add: loadFeatures_def with_id_def nth_enumerate_eq)

text \<open>
  C5. \<open>loadFeatures\<close> has no error result: when the feature list file cannot be read or
  parsed it returns the empty list, and otherwise it returns one record per record of the
  file, where a record whose id is missing (or empty) gets the id
  \<open>feature-<index>-<timestamp>\<close> and every other record keeps its id.
\<close>

theorem loadFeatures_never_raises:
  "(feature_list_json (env w) path = Unreadable \<or> feature_list_json (env w) path = Unparseable
      \<longrightarrow> loadFeatures path w = []) \<and>
   (feature_list_json (env w) path = FeatureArray raw \<longrightarrow>
      length (loadFeatures path w) = length raw \<and>
      (\<forall>index < length raw.
         f_id (loadFeatures path w ! index) =
           (if f_id (raw ! index) = None \<or> f_id (raw ! index) = Some []
            then ''feature-'' @ string_of_nat index @ ''-'' @ string_of_nat (clock (env w))
            else the (f_id (raw ! index)))))"
proof (intro conjI impI allI)
  assume "feature_list_json (env w) path = Unreadable \<or> feature_list_json (env w) path = Unparseable"
  then show "loadFeatures path w = []"
    by (auto simp: loadFeatures_def)
next
  assume "feature_list_json (env w) path = FeatureArray raw"
  then show "length (loadFeatures path w) = length raw"
    by (rule length_loadFeatures)
next
  fix index
  assume a: "feature_list_json (env w) path = FeatureArray raw" and b: "index < length raw"
  show "f_id (loadFeatures path w ! index) =
           (if f_id (raw ! index) = None \<or> f_id (raw ! index) = Some []
            then ''feature-'' @ string_of_nat index @ ''-'' @ string_of_nat (clock (env w))
            else the (f_id (raw ! index)))"
    using nth_loadFeatures [OF a b]
    by (auto simp: id_or_generated_def generated_id_def split: option.splits)
qed

theorem loadFeatures_never_raises_witness:
  "feature_list_json (env w0) ''/p'' = FeatureArray [raw1, raw_noid] \<and>
   loadFeatures ''/q'' w0 = [] \<and>
   length (loadFeatures ''/p'' w0) = 2 \<and>
   f_id (loadFeatures ''/p'' w0 ! 0) = ''f1'' \<and>
   f_id (loadFeatures ''/p'' w0 ! 1) = ''feature-1-1700000000123''"
proof -
  have a: "feature_list_json (env w0) ''/p'' = FeatureArray [raw1, raw_noid]"
    by (simp add: w0_def constructor_def env0_def)
  have b: "feature_list_json (env w0) ''/q'' = Unreadable"
    by (simp add: w0_def constructor_def env0_def)
  have c: "clock (env w0) = 1700000000123"
    by (simp add: w0_def constructor_def env0_def)
  from loadFeatures_never_raises [of w0 "''/p''" "[raw1, raw_noid]"] a
  have p: "length (loadFeatures ''/p'' w0) = 2"
    and q: "\<forall>index<2. f_id (loadFeatures ''/p'' w0 ! index) =
           (if f_id ([raw1, raw_noid] ! index) = None \<or> f_id ([raw1, raw_noid] ! index) = Some []
            then ''feature-'' @ string_of_nat index @ ''-'' @ string_of_nat (clock (env w0))
            else the (f_id ([raw1, raw_noid] ! index)))"
    by simp_all
  from q have q0: "f_id (loadFeatures ''/p'' w0 ! 0) = ''f1''"
    by (simp add: raw1_def)
  from q have "f_id (loadFeatures ''/p'' w0 ! 1) =
      ''feature-'' @ string_of_nat 1 @ ''-'' @ string_of_nat (clock (env w0))"
    by (simp add: raw_noid_def)
  then have q1: "f_id (loadFeatures ''/p'' w0 ! 1) = ''feature-1-1700000000123''"
    by (simp add: c digit_char_def)
  from loadFeatures_never_raises [of w0 "''/q''"] b
  have r: "loadFeatures ''/q'' w0 = []" by simp
  show ?thesis using a p q0 q1 r by simp
qed

section \<open>Stopping and starting the loop\<close>

lemma foldl_abort_entry_mono: "c \<in> ab \<Longrightarrow> c \<in> foldl abort_entry ab es"
  by (induction es arbitrary: ab) (auto simp: abort_entry_def split: option.splits)

lemma foldl_abort_entry_mem:
  "entry \<in> set es \<Longrightarrow> abortController (snd entry) = Some c \<Longrightarrow> c \<in> foldl abort_entry ab es"
proof (induction es arbitrary: ab)
  case Nil
  then show ?case by simp
next
  case (Cons e es)
  show ?case
  proof (cases "entry = e")
    case True
    with Cons.prems have "c \<in> abort_entry ab e" by (simp add: abort_entry_def)
    then show ?thesis by (simp add: foldl_abort_entry_mono)
  next
    case False
    with Cons show ?thesis by simp
  qed
qed

text \<open>
  C7. From every state, \<open>stop\<close> returns success, clears the loop flag, empties the
  registry, and has called \<open>abort()\<close> on the abort controller of every execution that
  was registered and holds one (an execution that has not reached its delegate call
  holds none), and on the loop-level controller if there is one.
\<close>

theorem stop_cancels_everything:
  "fst (stop w) \<and> \<not> autoLoopRunning (snd (stop w)) \<and> runningFeatures (snd (stop w)) = [] \<and>
   (\<forall>entry \<in> set (runningFeatures w). \<forall>c. abortController (snd entry) = Some c
       \<longrightarrow> c \<in> aborted (snd (stop w))) \<and>
   set_option (autoLoopAbortController w) \<subseteq> aborted (snd (stop w)) \<and>
   autoLoopAbortController (snd (stop w)) = None \<and>
   aborted w \<subseteq> aborted (snd (stop w))"
  by (auto simp: stop_def Let_def foldl_abort_entry_mem foldl_abort_entry_mono split: option.splits)

theorem stop_cancels_everything_witness:
  "(''f1'', \<lparr>abortController = Some 4, query = Some 2, projectPath = ''/p''\<rparr>)
     \<in> set (runningFeatures busy_world) \<and>
   4 \<notin> aborted busy_world \<and> autoLoopRunning busy_world \<and>
   4 \<in> aborted (snd (stop busy_world)) \<and>
   \<not> autoLoopRunning (snd (stop busy_world)) \<and>
   runningFeatures (snd (stop busy_world)) = []"
proof -
  have m: "(''f1'', \<lparr>abortController = Some 4, query = Some 2, projectPath = ''/p''\<rparr>)
             \<in> set (runningFeatures busy_world)"
    by (simp add: busy_world_def)
  have "4 \<in> aborted (snd (stop busy_world))"
    using stop_cancels_everything [of busy_world] m by fastforce
  then show ?thesis
    using stop_cancels_everything [of busy_world] m by (simp add: busy_world_def w0_def constructor_def)
qed

text \<open>
  The loop on a store without features (an absent or unreadable feature list file among
  them): it reports completion at once and clears the flag.
\<close>

lemma runLoop_without_features:
  "autoLoopRunning w \<Longrightarrow> loadFeatures path w = [] \<Longrightarrow>
   runLoop (Suc fuel) ag path w =
     Some ((sendToRenderer (auto_mode_complete ''All features completed!'') w)
             \<lparr>autoLoopRunning := False\<rparr>)"
  by (simp add: selectNextFeature_def)




section \<open>Frame lemmas\<close>

lemma has_iff: "has featureId w \<longleftrightarrow> featureId \<in> fst ` set (runningFeatures w)"
  by (simp add: has_def map_of_eq_None_iff)

lemma sendToRenderer_fields [simp]:
  "runningFeatures (sendToRenderer ev w) = runningFeatures w"
  "env (sendToRenderer ev w) = env w"
  "queries (sendToRenderer ev w) = queries w"
  "controllers (sendToRenderer ev w) = controllers w"
  "aborted (sendToRenderer ev w) = aborted w"
  "autoLoopRunning (sendToRenderer ev w) = autoLoopRunning w"
  by (simp_all add: sendToRenderer_def)

lemma writeToContextFile_fields [simp]:
  "runningFeatures (writeToContextFile path i text w) = runningFeatures w"
  "queries (writeToContextFile path i text w) = queries w"
  "controllers (writeToContextFile path i text w) = controllers w"
  "events (writeToContextFile path i text w) = events w"
  "feature_list_json (env (writeToContextFile path i text w)) = feature_list_json (env w)"
  "writeFile_error (env (writeToContextFile path i text w)) = writeFile_error (env w)"
  "unlink_error (env (writeToContextFile path i text w)) = unlink_error (env w)"
  "clock (env (writeToContextFile path i text w)) = clock (env w)"
  by (simp_all add: writeToContextFile_def)

lemma deleteContextFile_fields [simp]:
  "runningFeatures (deleteContextFile path i w) = runningFeatures w"
  "queries (deleteContextFile path i w) = queries w"
  "controllers (deleteContextFile path i w) = controllers w"
  "events (deleteContextFile path i w) = events w"
  "feature_list_json (env (deleteContextFile path i w)) = feature_list_json (env w)"
  "writeFile_error (env (deleteContextFile path i w)) = writeFile_error (env w)"
  "unlink_error (env (deleteContextFile path i w)) = unlink_error (env w)"
  "clock (env (deleteContextFile path i w)) = clock (env w)"
  by (simp_all add: deleteContextFile_def unlink_def split: option.splits)

lemma register_fields [simp]:
  "env (register i path w) = env w"
  "queries (register i path w) = queries w"
  "events (register i path w) = events w"
  "controllers (register i path w) = controllers w"
  by (simp_all add: register_def)

lemma unregister_fields [simp]:
  "env (unregister i w) = env w"
  "queries (unregister i w) = queries w"
  "events (unregister i w) = events w"
  "controllers (unregister i w) = controllers w"
  by (simp_all add: unregister_def)

lemma has_register [simp]: "has i (register i path w)"
  by (simp add: has_def register_def update_conv')

lemma unregister_register:
  "\<not> has i w \<Longrightarrow> unregister i (sendToRenderer ev (register i path w)) = sendToRenderer ev w"
  by (simp add: has_iff unregister_def register_def sendToRenderer_def delete_update_same)

text \<open>The store as the code reads it depends on the feature list file and the clock only.\<close>

lemma loadFeatures_cong:
  "feature_list_json (env w') = feature_list_json (env w) \<Longrightarrow> clock (env w') = clock (env w)
   \<Longrightarrow> loadFeatures path w' = loadFeatures path w"
  by (simp add: loadFeatures_def split: file_content.splits)

lemma loadFeatures_frame [simp]:
  "loadFeatures path (sendToRenderer ev w) = loadFeatures path w"
  "loadFeatures path (writeToContextFile p i text w) = loadFeatures path w"
  "loadFeatures path (deleteContextFile p i w) = loadFeatures path w"
  "loadFeatures path (register i p w) = loadFeatures path w"
  "loadFeatures path (unregister i w) = loadFeatures path w"
  by (rule loadFeatures_cong; simp)+

lemma stored_status_frame [simp]:
  "stored_status path j (sendToRenderer ev w) = stored_status path j w"
  "stored_status path j (writeToContextFile p i text w) = stored_status path j w"
  "stored_status path j (deleteContextFile p i w) = stored_status path j w"
  "stored_status path j (register i p w) = stored_status path j w"
  "stored_status path j (unregister i w) = stored_status path j w"
  by (simp_all add: stored_status_def)

lemma listed_frame [simp]:
  "listed path j (sendToRenderer ev w) = listed path j w"
  "listed path j (writeToContextFile p i text w) = listed path j w"
  "listed path j (deleteContextFile p i w) = listed path j w"
  "listed path j (register i p w) = listed path j w"
  "listed path j (unregister i w) = listed path j w"
  by (simp_all add: listed_def)

text \<open>\<open>writeToContextFile\<close> as one update of the log, for evaluation.\<close>

lemma writeToContextFile_eval:
  "writeToContextFile path i content w =
     w\<lparr>env := (env w)\<lparr>agents_context := (agents_context (env w))
        ((path, i) :=
           (if path = [] \<or> log_write_error (env w) (path, i)
            then agents_context (env w) (path, i)
            else Some ((case readFile_log path i w of
                          Some existing \<Rightarrow> existing
                        | None \<Rightarrow> []) @ content)))\<rparr>\<rparr>"
  by (simp add: writeToContextFile_def split: option.splits)

text \<open>
  C1. A request for a feature id that is in the registry raises
  \<open>Feature <id> is already running\<close> and leaves the whole state as it was: the registry
  keeps its entry for the id, no query is made and no file is written. Registering and
  unregistering keep the registry at one entry per feature id.
\<close>

theorem second_request_rejected:
  "(has featureId w \<longrightarrow>
     runFeature ag path featureId w
       = (Inl (Error_new (''Feature '' @ featureId @ '' is already running'')), w) \<and>
     verifyFeature ag path featureId w
       = (Inl (Error_new (''Feature '' @ featureId @ '' is already running'')), w) \<and>
     resumeFeature ag path featureId w
       = (Inl (Error_new (''Feature '' @ featureId @ '' is already running'')), w)) \<and>
   (distinct (map fst (runningFeatures w)) \<longrightarrow>
     distinct (map fst (runningFeatures (register featureId path w))) \<and>
     distinct (map fst (runningFeatures (unregister featureId w))))"
  by (simp add: runFeature_def verifyFeature_def resumeFeature_def already_running_def
      register_def unregister_def distinct_update distinct_delete)

theorem second_request_rejected_witness:
  "has ''f1'' busy_world \<and> distinct (map fst (runningFeatures busy_world)) \<and>
   runFeature aborting_agent ''/p'' ''f1'' busy_world
     = (Inl (Error_new ''Feature f1 is already running''), busy_world) \<and>
   verifyFeature aborting_agent ''/p'' ''f1'' busy_world
     = (Inl (Error_new ''Feature f1 is already running''), busy_world) \<and>
   resumeFeature aborting_agent ''/p'' ''f1'' busy_world
     = (Inl (Error_new ''Feature f1 is already running''), busy_world) \<and>
   distinct (map fst (runningFeatures (register ''f3'' ''/p'' busy_world)))"
proof -
  have h: "has ''f1'' busy_world" "distinct (map fst (runningFeatures busy_world))"
    by (simp_all add: has_def busy_world_def)
  show ?thesis
    using second_request_rejected [of "''f1''" busy_world aborting_agent "''/p''"]
      second_request_rejected [of "''f3''" busy_world aborting_agent "''/p''"] h
    by simp
qed

lemma find_feature_None_iff: "find_feature i fs = None \<longleftrightarrow> i \<notin> f_id ` set fs"
  by (auto simp: find_feature_def find_None_iff)

lemma find_feature_id: "find_feature i fs = Some f \<Longrightarrow> f_id f = i"
  by (auto simp: find_feature_def find_Some_iff)

lemma updateFeatureStatus_unknown:
  "\<not> listed path featureId w \<Longrightarrow> updateFeatureStatus featureId s path w = (Inr (), w)"
  by (simp add: updateFeatureStatus_def listed_def)

lemma runFeature_unknown:
  "\<not> has featureId w \<Longrightarrow> \<not> listed path featureId w \<Longrightarrow>
   runFeature ag path featureId w =
     (Inl (not_found featureId),
      sendToRenderer (auto_mode_error (err_message (not_found featureId)) featureId) w)"
  by (simp add: runFeature_def runFeature_try_def catch_finally_def listed_def unregister_register)

lemma verifyFeature_unknown:
  "\<not> has featureId w \<Longrightarrow> \<not> listed path featureId w \<Longrightarrow>
   verifyFeature ag path featureId w =
     (Inl (not_found featureId),
      sendToRenderer (auto_mode_error (err_message (not_found featureId)) featureId) w)"
  by (simp add: verifyFeature_def verifyFeature_try_def catch_finally_def listed_def unregister_register)

lemma resumeFeature_unknown:
  "\<not> has featureId w \<Longrightarrow> \<not> listed path featureId w \<Longrightarrow>
   resumeFeature ag path featureId w =
     (Inl (not_found featureId),
      sendToRenderer (auto_mode_error (err_message (not_found featureId)) featureId) w)"
  by (simp add: resumeFeature_def resumeFeature_try_def catch_finally_def listed_def unregister_register)

lemma reload_saved:
  "\<forall>f \<in> set fs. f_id f \<noteq> [] \<Longrightarrow>
   map (with_id now) (enumerate n (map toSave fs)) = map strip fs"
  by (induction fs arbitrary: n) (simp_all add: with_id_def toSave_def id_or_generated_def strip_def)

lemma loaded_ids_nonempty: "f \<in> set (loadFeatures path w) \<Longrightarrow> f_id f \<noteq> []"
  by (auto simp: loadFeatures_def with_id_def id_or_generated_nonempty split: file_content.splits)

lemma assign_status_ids: "f_id ` set (assign_status i s fs) = f_id ` set fs"
  by (induction fs) auto

lemma find_assign_status:
  "find_feature i fs = Some f \<Longrightarrow>
   find_feature i (map strip (assign_status i s fs)) = Some (strip (f\<lparr>status := Some s\<rparr>))"
  by (induction fs) (auto simp: find_feature_def strip_def)

lemma find_feature_strip:
  "find_feature j (map strip fs) = map_option strip (find_feature j fs)"
  by (induction fs) (auto simp: find_feature_def strip_def)

lemma find_assign_status_other:
  "j \<noteq> i \<Longrightarrow>
   find_feature j (map strip (assign_status i s fs)) = map_option strip (find_feature j fs)"
  using find_feature_strip [unfolded find_feature_def]
  by (induction fs) (auto simp: find_feature_def strip_def)

lemma loadFeatures_writeFeatures:
  assumes "writeFile_error (env w) path = None"
  shows "loadFeatures path (snd (writeFeatures path (map toSave (assign_status i s (loadFeatures path w))) w))
           = map strip (assign_status i s (loadFeatures path w))"
proof -
  have "\<forall>f \<in> set (assign_status i s (loadFeatures path w)). f_id f \<noteq> []"
  proof
    fix f assume "f \<in> set (assign_status i s (loadFeatures path w))"
    then have "f_id f \<in> f_id ` set (loadFeatures path w)"
      using assign_status_ids [of i s "loadFeatures path w"] by blast
    then obtain g where "g \<in> set (loadFeatures path w)" and "f_id f = f_id g"
      by blast
    then show "f_id f \<noteq> []" using loaded_ids_nonempty [of g path w] by simp
  qed
  then show ?thesis
    using assms by (simp add: writeFeatures_def loadFeatures_def [of path "_\<lparr>env := _\<rparr>"] reload_saved)
qed

lemma updateFeatureStatus_listed:
  assumes "listed path i w" and "writeFile_error (env w) path = None"
  shows "updateFeatureStatus i s path w =
           (Inr (),
            (if s = ''verified'' then deleteContextFile path i else id)
              (snd (writeFeatures path (map toSave (assign_status i s (loadFeatures path w))) w)))"
  using assms
  by (auto simp: updateFeatureStatus_def listed_def writeFeatures_def Let_def)

lemma stored_status_written:
  assumes "listed path i w" and "writeFile_error (env w) path = None"
  shows "stored_status path i
           (snd (writeFeatures path (map toSave (assign_status i s (loadFeatures path w))) w)) = Some s"
proof -
  from assms(1) obtain f where f: "find_feature i (loadFeatures path w) = Some f"
    by (auto simp: listed_def)
  show ?thesis
    unfolding stored_status_def loadFeatures_writeFeatures [OF assms(2)]
    by (simp add: find_assign_status [OF f] strip_def)
qed

lemma stored_status_updated:
  assumes "listed path i w" and "writeFile_error (env w) path = None"
  shows "stored_status path i (snd (updateFeatureStatus i s path w)) = Some s"
  using stored_status_written [OF assms, of s]
  by (auto simp: updateFeatureStatus_listed [OF assms])

lemma agents_context_written:
  "agents_context (env (snd (writeFeatures path records w))) = agents_context (env w)"
  "unlink_error (env (snd (writeFeatures path records w))) = unlink_error (env w)"
  by (simp_all add: writeFeatures_def split: option.splits)

lemma agents_context_deleted:
  "agents_context (env (deleteContextFile path i w)) =
     (if path \<noteq> [] \<and> unlink_error (env w) (path, i) = None
      then (agents_context (env w))((path, i) := None)
      else agents_context (env w))"
  by (auto simp: deleteContextFile_def unlink_def split: option.splits)

lemma updateFeatureStatus_log:
  assumes "listed path featureId w" and "writeFile_error (env w) path = None"
  shows "agents_context (env (snd (updateFeatureStatus featureId s path w))) =
           (if s = ''verified'' \<and> path \<noteq> [] \<and> unlink_error (env w) (path, featureId) = None
            then (agents_context (env w))((path, featureId) := None)
            else agents_context (env w))"
  by (simp add: updateFeatureStatus_listed [OF assms] agents_context_deleted agents_context_written)

text \<open>
  C4, as the code has it. For a feature that is listed in the store, when the rewrite of
  the feature list succeeds, \<open>updateFeatureStatus\<close> returns normally, the store then shows
  the new status, and the execution logs afterwards are those before with the log of the
  feature removed exactly when the new status is \<open>verified\<close> (and the project path is not
  empty and \<open>unlink\<close> raises nothing); an error of \<open>unlink\<close> changes neither the
  result nor the status written. For a feature that is not listed, \<open>updateFeatureStatus\<close>
  returns normally and changes nothing.
\<close>

theorem log_deleted_iff_verified:
  "(listed path featureId w \<and> writeFile_error (env w) path = None \<longrightarrow>
      fst (updateFeatureStatus featureId s path w) = Inr () \<and>
      stored_status path featureId (snd (updateFeatureStatus featureId s path w)) = Some s \<and>
      agents_context (env (snd (updateFeatureStatus featureId s path w))) =
        (if s = ''verified'' \<and> path \<noteq> [] \<and> unlink_error (env w) (path, featureId) = None
         then (agents_context (env w))((path, featureId) := None)
         else agents_context (env w))) \<and>
   (\<not> listed path featureId w \<longrightarrow> updateFeatureStatus featureId s path w = (Inr (), w))"
proof (intro conjI impI)
  assume a: "listed path featureId w \<and> writeFile_error (env w) path = None"
  then have l: "listed path featureId w" and e: "writeFile_error (env w) path = None"
    by simp_all
  show "fst (updateFeatureStatus featureId s path w) = Inr ()"
    by (simp add: updateFeatureStatus_listed [OF l e])
  show "stored_status path featureId (snd (updateFeatureStatus featureId s path w)) = Some s"
    by (rule stored_status_updated [OF l e])
  show "agents_context (env (snd (updateFeatureStatus featureId s path w))) =
           (if s = ''verified'' \<and> path \<noteq> [] \<and> unlink_error (env w) (path, featureId) = None
            then (agents_context (env w))((path, featureId) := None)
            else agents_context (env w))"
    by (rule updateFeatureStatus_log [OF l e])
next
  assume "\<not> listed path featureId w"
  then show "updateFeatureStatus featureId s path w = (Inr (), w)"
    by (rule updateFeatureStatus_unknown)
qed

lemma listed_f1: "listed ''/p'' ''f1'' w0"
  by (simp add: listed_def loadFeatures_def w0_def constructor_def env0_def find_feature_def
      with_id_def id_or_generated_def raw1_def enumerate_eq_zip)

lemma not_listed_ghost: "\<not> listed ''/p'' ''ghost'' w0"
  by (simp add: listed_def loadFeatures_def w0_def constructor_def env0_def find_feature_def
      with_id_def id_or_generated_def generated_id_def raw1_def raw_noid_def)

theorem log_deleted_iff_verified_witness:
  "listed ''/p'' ''f1'' w0 \<and> writeFile_error (env w0) ''/p'' = None \<and>
   agents_context (env w0) (''/p'', ''f1'') = Some ''log of f1'' \<and>
   fst (updateFeatureStatus ''f1'' ''verified'' ''/p'' w0) = Inr () \<and>
   stored_status ''/p'' ''f1'' (snd (updateFeatureStatus ''f1'' ''verified'' ''/p'' w0))
     = Some ''verified'' \<and>
   agents_context (env (snd (updateFeatureStatus ''f1'' ''verified'' ''/p'' w0))) (''/p'', ''f1'')
     = None \<and>
   agents_context (env (snd (updateFeatureStatus ''f1'' ''backlog'' ''/p'' w0))) (''/p'', ''f1'')
     = Some ''log of f1'' \<and>
   \<not> listed ''/p'' ''ghost'' w0 \<and>
   updateFeatureStatus ''ghost'' ''backlog'' ''/p'' w0 = (Inr (), w0)"
proof -
  have e: "writeFile_error (env w0) ''/p'' = None"
    "unlink_error (env w0) (''/p'', ''f1'') = None"
    "agents_context (env w0) (''/p'', ''f1'') = Some ''log of f1''"
    by (simp_all add: w0_def constructor_def env0_def)
  show ?thesis
    using log_deleted_iff_verified [of "''/p''" "''f1''" w0 "''verified''"]
      log_deleted_iff_verified [of "''/p''" "''f1''" w0 "''backlog''"]
      log_deleted_iff_verified [of "''/p''" "''ghost''" w0 "''backlog''"]
      e listed_f1 not_listed_ghost
    by simp
qed

text \<open>
  The claim C4 speaks of every feature id. For an id that is not listed the update to
  \<open>verified\<close> returns before the deletion and the log of that id stays.
\<close>

theorem unlisted_feature_keeps_log:
  "agents_context (env w0) (''/p'', ''ghost'') = Some ''old log'' \<and>
   updateFeatureStatus ''ghost'' ''verified'' ''/p'' w0 = (Inr (), w0)"
  using updateFeatureStatus_unknown [OF not_listed_ghost, of "''verified''"]
  by (simp add: w0_def constructor_def env0_def)

text \<open>
  C9, as the code has it. For a feature id that is neither registered nor listed in the
  store, \<open>runFeature\<close>, \<open>verifyFeature\<close> and \<open>resumeFeature\<close> raise
  \<open>Feature <id> not found\<close> at once: the only change of state is the error event, so no
  query is made, nothing is retried and the registry is as before. \<open>updateFeatureStatus\<close>
  with such an id raises nothing and changes nothing.
\<close>

theorem unknown_feature_id:
  assumes "\<not> has featureId w" and "\<not> listed path featureId w"
  shows "runFeature ag path featureId w =
           (Inl (Error_new (''Feature '' @ featureId @ '' not found'')),
            sendToRenderer (auto_mode_error (''Feature '' @ featureId @ '' not found'') featureId) w) \<and>
         verifyFeature ag path featureId w =
           (Inl (Error_new (''Feature '' @ featureId @ '' not found'')),
            sendToRenderer (auto_mode_error (''Feature '' @ featureId @ '' not found'') featureId) w) \<and>
         resumeFeature ag path featureId w =
           (Inl (Error_new (''Feature '' @ featureId @ '' not found'')),
            sendToRenderer (auto_mode_error (''Feature '' @ featureId @ '' not found'') featureId) w) \<and>
         updateFeatureStatus featureId s path w = (Inr (), w)"
  using runFeature_unknown [OF assms] verifyFeature_unknown [OF assms]
    resumeFeature_unknown [OF assms] updateFeatureStatus_unknown [OF assms(2)]
  by (simp add: not_found_def Error_new_def)

lemma not_has_w0: "\<not> has i w0"
  by (simp add: has_def w0_def constructor_def)

theorem unknown_feature_id_witness:
  "\<not> has ''ghost'' w0 \<and> \<not> listed ''/p'' ''ghost'' w0 \<and>
   fst (runFeature aborting_agent ''/p'' ''ghost'' w0) = Inl (Error_new ''Feature ghost not found'') \<and>
   fst (verifyFeature aborting_agent ''/p'' ''ghost'' w0) = Inl (Error_new ''Feature ghost not found'') \<and>
   fst (resumeFeature aborting_agent ''/p'' ''ghost'' w0) = Inl (Error_new ''Feature ghost not found'') \<and>
   queries (snd (runFeature aborting_agent ''/p'' ''ghost'' w0)) = []"
  using unknown_feature_id [OF not_has_w0 not_listed_ghost, of aborting_agent] not_has_w0 not_listed_ghost
  by (simp add: w0_def constructor_def)

text \<open>
  The claim C9 says that the status-update path surfaces the error too. With an id that
  is not listed \<open>updateFeatureStatus\<close> returns normally.
\<close>

theorem status_update_of_unknown_id_returns:
  "\<not> listed ''/p'' ''missing'' w0 \<and>
   fst (updateFeatureStatus ''missing'' ''in_progress'' ''/p'' w0) = Inr ()"
  by (simp add: updateFeatureStatus_def listed_def loadFeatures_def w0_def constructor_def env0_def
      find_feature_def with_id_def id_or_generated_def generated_id_def raw1_def raw_noid_def)

section \<open>What the steps of the state machine leave unchanged\<close>

lemma map_execution_fields [simp]:
  "env (map_execution i g w) = env w"
  "queries (map_execution i g w) = queries w"
  "controllers (map_execution i g w) = controllers w"
  "events (map_execution i g w) = events w"
  by (simp_all add: map_execution_def)

lemma has_map_execution [simp]: "has j (map_execution i g w) = has j w"
  by (simp add: has_iff map_execution_def dom_map_entry)

lemma has_frame [simp]:
  "has j (sendToRenderer ev w) = has j w"
  "has j (writeToContextFile p i text w) = has j w"
  "has j (deleteContextFile p i w) = has j w"
  "has j (w\<lparr>env := e\<rparr>) = has j w"
  "has j (w\<lparr>queries := q\<rparr>) = has j w"
  "has j (w\<lparr>controllers := c\<rparr>) = has j w"
  by (simp_all add: has_def)

lemma clear_execution_fields [simp]:
  "env (clear_execution i w) = env w"
  "queries (clear_execution i w) = queries w"
  "controllers (clear_execution i w) = controllers w"
  "events (clear_execution i w) = events w"
  "has j (clear_execution i w) = has j w"
  by (simp_all add: clear_execution_def)

lemma new_AbortController_fields [simp]:
  "env (new_AbortController i w) = env w"
  "queries (new_AbortController i w) = queries w"
  "controllers (new_AbortController i w) = Suc (controllers w)"
  "events (new_AbortController i w) = events w"
  "has j (new_AbortController i w) = has j w"
  by (simp_all add: new_AbortController_def)

lemma send_query_fields [simp]:
  "env (send_query i r w) = env w"
  "queries (send_query i r w) = queries w @ [r]"
  "controllers (send_query i r w) = controllers w"
  "events (send_query i r w) = events w"
  "has j (send_query i r w) = has j w"
  by (simp_all add: send_query_def)

lemma stop_fields [simp]:
  "env (snd (stop w)) = env w"
  "queries (snd (stop w)) = queries w"
  "controllers (snd (stop w)) = controllers w"
  "\<not> has j (snd (stop w))"
  by (simp_all add: stop_def Let_def has_def split: option.splits)

lemma writeFeatures_fields [simp]:
  "runningFeatures (snd (writeFeatures path records w)) = runningFeatures w"
  "queries (snd (writeFeatures path records w)) = queries w"
  "controllers (snd (writeFeatures path records w)) = controllers w"
  "events (snd (writeFeatures path records w)) = events w"
  "writeFile_error (env (snd (writeFeatures path records w))) = writeFile_error (env w)"
  "clock (env (snd (writeFeatures path records w))) = clock (env w)"
  by (simp_all add: writeFeatures_def split: option.splits)

lemma updateFeatureStatus_fields [simp]:
  "runningFeatures (snd (updateFeatureStatus i s path w)) = runningFeatures w"
  "queries (snd (updateFeatureStatus i s path w)) = queries w"
  "controllers (snd (updateFeatureStatus i s path w)) = controllers w"
  "events (snd (updateFeatureStatus i s path w)) = events w"
  "writeFile_error (env (snd (updateFeatureStatus i s path w))) = writeFile_error (env w)"
  "clock (env (snd (updateFeatureStatus i s path w))) = clock (env w)"
  by (simp_all add: updateFeatureStatus_def Let_def writeFeatures_def split: option.splits prod.splits sum.splits)

lemma tool_eq: "UpdateFeatureStatus_tool path i s w = snd (updateFeatureStatus i (status_string s) path w)"
  by (simp add: UpdateFeatureStatus_tool_def split: prod.splits sum.splits)

lemma has_updateFeatureStatus [simp]: "has j (snd (updateFeatureStatus i s path w)) = has j w"
  by (simp add: has_def)

lemma stream_block_fields [simp]:
  "runningFeatures (snd (stream_block path i (a, w) b)) = runningFeatures w"
  "queries (snd (stream_block path i (a, w) b)) = queries w"
  "controllers (snd (stream_block path i (a, w) b)) = controllers w"
  "feature_list_json (env (snd (stream_block path i (a, w) b))) = feature_list_json (env w)"
  "writeFile_error (env (snd (stream_block path i (a, w) b))) = writeFile_error (env w)"
  "clock (env (snd (stream_block path i (a, w) b))) = clock (env w)"
  by (simp_all add: stream_block_def split: block.splits)

lemma implement_block_fields [simp]:
  "runningFeatures (snd (implement_block path i (a, w) b)) = runningFeatures w"
  "queries (snd (implement_block path i (a, w) b)) = queries w"
  "controllers (snd (implement_block path i (a, w) b)) = controllers w"
  "feature_list_json (env (snd (implement_block path i (a, w) b))) = feature_list_json (env w)"
  "writeFile_error (env (snd (implement_block path i (a, w) b))) = writeFile_error (env w)"
  "clock (env (snd (implement_block path i (a, w) b))) = clock (env w)"
  by (simp_all add: implement_block_def Let_def split: block.splits prod.splits)

text \<open>A property of the world that every block handler keeps is kept by the inner loop.\<close>

lemma foldl_frame:
  assumes "\<And>a w b. sel (snd (h (a, w) b)) = sel w"
  shows "sel (snd (foldl h (a, w) bs)) = sel w"
proof (induction bs arbitrary: a w)
  case Nil
  show ?case by simp
next
  case (Cons b bs)
  obtain a' w' where s: "h (a, w) b = (a', w')" by (cases "h (a, w) b")
  have "sel w' = sel w" using assms [of a w b] s by simp
  then show ?case using Cons [of a' w'] s by simp
qed

lemma for_await_frame:
  assumes h: "\<And>a w b. sel (snd (h (a, w) b)) = sel w"
    and t: "\<And>w p j s. sel (snd (updateFeatureStatus j s p w)) = sel w"
    and e: "\<And>w f. sel (w\<lparr>env := f\<rparr>) = sel w"
    and s: "\<And>w. sel (snd (stop w)) = sel w"
  shows "sel (snd (for_await h path i items en (a, w))) = sel w"
proof (induction items arbitrary: a w)
  case Nil
  show ?case by (cases en) simp_all
next
  case (Cons item rest)
  show ?case
  proof (cases item)
    case (Yield msg)
    show ?thesis
    proof (cases msg)
      case (AssistantMessage content)
      obtain a' w' where f: "foldl h (a, w) content = (a', w')"
        by (cases "foldl h (a, w) content")
      have "sel w' = sel w" using foldl_frame [of sel h a w content] h f by simp
      then show ?thesis using Cons [of a' w'] f Yield AssistantMessage by simp
    next
      case OtherMessage
      then show ?thesis using Cons [of a w] Yield by simp
    qed
  next
    case (ToolCall j st)
    then show ?thesis using Cons [of a "UpdateFeatureStatus_tool path j st w"] t
      by (simp add: tool_eq)
  next
    case (EnvStep f)
    then show ?thesis using Cons [of a "w\<lparr>env := f (env w)\<rparr>"] e by simp
  next
    case StopRequested
    then show ?thesis using Cons [of a "snd (stop w)"] s by simp
  qed
qed

lemma for_await_Inl:
  "for_await h path i items en (a, w) = (Inl err, w') \<Longrightarrow> en = Raises err"
proof (induction items arbitrary: a w)
  case Nil
  then show ?case by (cases en) simp_all
next
  case (Cons item rest)
  show ?case
  proof (cases item)
    case (Yield msg)
    obtain a' w1 where f: "(case msg of AssistantMessage content \<Rightarrow> foldl h (a, w) content
                             | OtherMessage \<Rightarrow> (a, w)) = (a', w1)"
      by (cases "case msg of AssistantMessage content \<Rightarrow> foldl h (a, w) content
                             | OtherMessage \<Rightarrow> (a, w)")
    show ?thesis using Cons.prems Cons.IH [of a' w1] Yield f
      by (simp split: if_splits)
  next
    case (ToolCall j st)
    then show ?thesis using Cons.prems Cons.IH by simp
  next
    case (EnvStep f)
    then show ?thesis using Cons.prems Cons.IH by simp
  next
    case StopRequested
    then show ?thesis using Cons.prems Cons.IH by simp
  qed
qed

lemma for_await_raises:
  assumes h: "\<And>a w b. runningFeatures (snd (h (a, w) b)) = runningFeatures w"
  shows "uninterrupted (has i w) items \<Longrightarrow>
         fst (for_await h path i items (Raises err) (a, w)) = Inl err"
proof (induction items arbitrary: a w)
  case Nil
  show ?case by simp
next
  case (Cons item rest)
  show ?case
  proof (cases item)
    case (Yield msg)
    with Cons.prems have r: "has i w" and u: "uninterrupted (has i w) rest" by auto
    show ?thesis
    proof (cases msg)
      case (AssistantMessage content)
      obtain a' w' where f: "foldl h (a, w) content = (a', w')"
        by (cases "foldl h (a, w) content")
      have "runningFeatures w' = runningFeatures w"
        using foldl_frame [of runningFeatures h a w content] h f by simp
      then have "has i w' = has i w" by (simp add: has_def)
      then show ?thesis using Cons.IH [of w' a'] u r f Yield AssistantMessage by simp
    next
      case OtherMessage
      then show ?thesis using Cons.IH [of w a] u r Yield by simp
    qed
  next
    case (ToolCall j st)
    then show ?thesis
      using Cons.prems Cons.IH [of "UpdateFeatureStatus_tool path j st w" a]
      by (simp add: tool_eq)
  next
    case (EnvStep f)
    then show ?thesis using Cons.prems Cons.IH [of "w\<lparr>env := f (env w)\<rparr>" a] by simp
  next
    case StopRequested
    then show ?thesis using Cons.prems Cons.IH [of "snd (stop w)" a] by simp
  qed
qed

section \<open>Cancellation\<close>

lemma has_implement_planning [simp]: "has j (implement_planning f path w) = has j w"
  by (simp add: implement_planning_def Let_def)

lemma implement_action_Inl:
  "implement_action ag f path w = (Inl err', w1) \<Longrightarrow> \<exists>qs. snd (ag qs) = Raises err'"
  by (auto simp: implement_action_def Let_def dest: for_await_Inl)

lemma verify_action_Inl:
  "verify_action ag f path w = (Inl err', w1) \<Longrightarrow> \<exists>qs. snd (ag qs) = Raises err'"
  by (auto simp: verify_action_def Let_def dest: for_await_Inl)

lemma resume_action_Inl:
  "resume_action ag f path ctx w = (Inl err', w1) \<Longrightarrow> \<exists>qs. snd (ag qs) = Raises err'"
  by (auto simp: resume_action_def Let_def dest: for_await_Inl)

lemma implement_action_raises:
  assumes "has (f_id f) w" and "\<And>qs. snd (ag qs) = Raises err"
    and "\<And>qs. uninterrupted True (fst (ag qs))"
  shows "fst (implement_action ag f path w) = Inl err"
  using assms for_await_raises [of "implement_block path (f_id f)" "f_id f"]
  by (simp add: implement_action_def Let_def)

lemma verify_action_raises:
  assumes "has (f_id f) w" and "\<And>qs. snd (ag qs) = Raises err"
    and "\<And>qs. uninterrupted True (fst (ag qs))"
  shows "fst (verify_action ag f path w) = Inl err"
  using assms for_await_raises [of "stream_block path (f_id f)" "f_id f"]
  by (simp add: verify_action_def Let_def)

lemma resume_action_raises:
  assumes "has (f_id f) w" and "\<And>qs. snd (ag qs) = Raises err"
    and "\<And>qs. uninterrupted True (fst (ag qs))"
  shows "fst (resume_action ag f path ctx w) = Inl err"
  using assms for_await_raises [of "stream_block path (f_id f)" "f_id f"]
  by (simp add: resume_action_def Let_def)

lemma implementFeature_abort:
  assumes a: "is_abort err" and e: "\<forall>qs. snd (ag qs) = Raises err" and r: "has (f_id f) w"
  shows "(\<exists>res. fst (implementFeature ag f path w) = Inr res) \<and>
         ((\<forall>qs. uninterrupted True (fst (ag qs))) \<longrightarrow>
            fst (implementFeature ag f path w) = Inr \<lparr>passes = False, message = ''Auto mode aborted''\<rparr>)"
proof -
  obtain x w1 where act: "implement_action ag f path (implement_planning f path w) = (x, w1)"
    by (cases "implement_action ag f path (implement_planning f path w)")
  have 1: "\<exists>res. fst (implementFeature ag f path w) = Inr res"
  proof (cases x)
    case (Inl err')
    with act e have "err' = err" by (auto dest: implement_action_Inl)
    with Inl act a r show ?thesis by (simp add: implementFeature_def)
  next
    case (Inr v)
    with act r show ?thesis by (simp add: implementFeature_def split: prod.splits)
  qed
  have 2: "fst (implementFeature ag f path w) = Inr \<lparr>passes = False, message = ''Auto mode aborted''\<rparr>"
    if u: "\<forall>qs. uninterrupted True (fst (ag qs))"
  proof -
    have "fst (implement_action ag f path (implement_planning f path w)) = Inl err"
      using r e u by (intro implement_action_raises) simp_all
    with act have "x = Inl err" by simp
    with act a r show ?thesis by (simp add: implementFeature_def)
  qed
  from 1 2 show ?thesis by blast
qed

lemma verifyFeatureTests_abort:
  assumes a: "is_abort err" and e: "\<forall>qs. snd (ag qs) = Raises err" and r: "has (f_id f) w"
  shows "(\<exists>res. fst (verifyFeatureTests ag f path w) = Inr res) \<and>
         ((\<forall>qs. uninterrupted True (fst (ag qs))) \<longrightarrow>
            fst (verifyFeatureTests ag f path w) = Inr \<lparr>passes = False, message = ''Verification aborted''\<rparr>)"
proof -
  obtain x w1 where act: "verify_action ag f path w = (x, w1)"
    by (cases "verify_action ag f path w")
  have 1: "\<exists>res. fst (verifyFeatureTests ag f path w) = Inr res"
  proof (cases x)
    case (Inl err')
    with act e have "err' = err" by (auto dest: verify_action_Inl)
    with Inl act a r show ?thesis by (simp add: verifyFeatureTests_def)
  next
    case (Inr v)
    with act r show ?thesis by (simp add: verifyFeatureTests_def split: prod.splits)
  qed
  have 2: "fst (verifyFeatureTests ag f path w) = Inr \<lparr>passes = False, message = ''Verification aborted''\<rparr>"
    if u: "\<forall>qs. uninterrupted True (fst (ag qs))"
  proof -
    have "fst (verify_action ag f path w) = Inl err"
      using r e u by (intro verify_action_raises) simp_all
    with act have "x = Inl err" by simp
    with act a r show ?thesis by (simp add: verifyFeatureTests_def)
  qed
  from 1 2 show ?thesis by blast
qed

lemma resumeFeatureWithContext_abort:
  assumes a: "is_abort err" and e: "\<forall>qs. snd (ag qs) = Raises err" and r: "has (f_id f) w"
  shows "(\<exists>res. fst (resumeFeatureWithContext ag f path ctx w) = Inr res) \<and>
         ((\<forall>qs. uninterrupted True (fst (ag qs))) \<longrightarrow>
            fst (resumeFeatureWithContext ag f path ctx w) = Inr \<lparr>passes = False, message = ''Resume aborted''\<rparr>)"
proof -
  obtain x w1 where act: "resume_action ag f path ctx w = (x, w1)"
    by (cases "resume_action ag f path ctx w")
  have 1: "\<exists>res. fst (resumeFeatureWithContext ag f path ctx w) = Inr res"
  proof (cases x)
    case (Inl err')
    with act e have "err' = err" by (auto dest: resume_action_Inl)
    with Inl act a r show ?thesis by (simp add: resumeFeatureWithContext_def)
  next
    case (Inr v)
    with act r show ?thesis by (simp add: resumeFeatureWithContext_def split: prod.splits)
  qed
  have 2: "fst (resumeFeatureWithContext ag f path ctx w) = Inr \<lparr>passes = False, message = ''Resume aborted''\<rparr>"
    if u: "\<forall>qs. uninterrupted True (fst (ag qs))"
  proof -
    have "fst (resume_action ag f path ctx w) = Inl err"
      using r e u by (intro resume_action_raises) simp_all
    with act have "x = Inl err" by simp
    with act a r show ?thesis by (simp add: resumeFeatureWithContext_def)
  qed
  from 1 2 show ?thesis by blast
qed

text \<open>
  C6. When the delegate's stream ends by raising a cancellation and the feature is
  registered, none of the three state-machine invocations raises; and when the stream is
  consumed up to that raise, each returns the non-passing result with its own message:
  \<open>Auto mode aborted\<close>, \<open>Verification aborted\<close>, \<open>Resume aborted\<close>.
\<close>

theorem cancellation_is_a_result:
  assumes "is_abort err" and "\<forall>qs. snd (ag qs) = Raises err" and "has (f_id feature) w"
  shows "(\<exists>res. fst (implementFeature ag feature path w) = Inr res) \<and>
         (\<exists>res. fst (verifyFeatureTests ag feature path w) = Inr res) \<and>
         (\<exists>res. fst (resumeFeatureWithContext ag feature path previousContext w) = Inr res) \<and>
         ((\<forall>qs. uninterrupted True (fst (ag qs))) \<longrightarrow>
            fst (implementFeature ag feature path w)
              = Inr \<lparr>passes = False, message = ''Auto mode aborted''\<rparr> \<and>
            fst (verifyFeatureTests ag feature path w)
              = Inr \<lparr>passes = False, message = ''Verification aborted''\<rparr> \<and>
            fst (resumeFeatureWithContext ag feature path previousContext w)
              = Inr \<lparr>passes = False, message = ''Resume aborted''\<rparr>)"
  using implementFeature_abort [OF assms, where path = path]
    verifyFeatureTests_abort [OF assms, where path = path]
    resumeFeatureWithContext_abort [OF assms, where path = path and ctx = previousContext]
  by blast

theorem cancellation_is_a_result_witness:
  "is_abort abort_error \<and> (\<forall>qs. snd (aborting_agent qs) = Raises abort_error) \<and>
   has (f_id feature1) (register ''f1'' ''/p'' w0) \<and>
   (\<forall>qs. uninterrupted True (fst (aborting_agent qs))) \<and>
   fst (implementFeature aborting_agent feature1 ''/p'' (register ''f1'' ''/p'' w0))
     = Inr \<lparr>passes = False, message = ''Auto mode aborted''\<rparr> \<and>
   fst (verifyFeatureTests aborting_agent feature1 ''/p'' (register ''f1'' ''/p'' w0))
     = Inr \<lparr>passes = False, message = ''Verification aborted''\<rparr> \<and>
   fst (resumeFeatureWithContext aborting_agent feature1 ''/p'' None (register ''f1'' ''/p'' w0))
     = Inr \<lparr>passes = False, message = ''Resume aborted''\<rparr>"
proof -
  have a: "is_abort abort_error" by (simp add: is_abort_def abort_error_def)
  have e: "\<forall>qs. snd (aborting_agent qs) = Raises abort_error" by (simp add: aborting_agent_def)
  have r: "has (f_id feature1) (register ''f1'' ''/p'' w0)" by (simp add: feature1_def)
  have u: "\<forall>qs. uninterrupted True (fst (aborting_agent qs))" by (simp add: aborting_agent_def)
  show ?thesis
    using cancellation_is_a_result [OF a e r, where path = "''/p''" and previousContext = None]
      a e r u by simp
qed

section \<open>Status resolution\<close>

lemma updateFeatureStatus_result:
  assumes "updateFeatureStatus i s path w = (Inr u, w')" and "listed path i w'"
  shows "stored_status path i w' = Some s"
proof (cases "listed path i w")
  case False
  with assms show ?thesis by (simp add: updateFeatureStatus_unknown)
next
  case True
  show ?thesis
  proof (cases "writeFile_error (env w) path")
    case None
    from stored_status_updated [OF True None, of s] assms(1) show ?thesis by simp
  next
    case (Some e)
    with True assms(1) show ?thesis
      by (auto simp: updateFeatureStatus_def listed_def writeFeatures_def)
  qed
qed

lemma complete_result:
  assumes "complete i f s path r w = (Inr out, w')"
  shows "out = Outcome True (passes r) \<and> (listed path i w' \<longrightarrow> stored_status path i w' = Some s)"
proof -
  obtain x w1 where u: "updateFeatureStatus i s path w = (x, w1)"
    by (cases "updateFeatureStatus i s path w")
  with assms obtain v where x: "x = Inr v"
    by (cases x) (simp_all add: complete_def)
  from assms u x have o: "out = Outcome True (passes r)"
    and w': "w' = sendToRenderer (auto_mode_feature_complete (f_id f) (passes r) (message r)) w1"
    by (simp_all add: complete_def)
  from updateFeatureStatus_result [of i s path w v w1] u x w'
  show ?thesis using o by simp
qed

lemma catch_finally_Inr:
  "catch_finally i x = (Inr out, w') \<Longrightarrow> \<exists>w1. x = (Inr out, w1) \<and> w' = unregister i w1"
  by (cases x) (auto simp: catch_finally_def split: sum.splits)

lemma runFeature_try_Inr:
  assumes "runFeature_try ag path i w = (Inr out, w')"
  shows "\<exists>f u w1 r w2.
           find_feature i (loadFeatures path w) = Some f \<and>
           updateFeatureStatus i ''in_progress'' path w = (Inr u, w1) \<and>
           implementFeature ag f path (sendToRenderer (auto_mode_feature_start (f_id f) f) w1)
             = (Inr r, w2) \<and>
           complete (f_id f) f (if passes r then ''verified'' else ''backlog'') path r w2
             = (Inr out, w')"
  using assms
  by (auto simp: runFeature_try_def split: option.splits prod.splits sum.splits)

lemma verifyFeature_try_Inr:
  assumes "verifyFeature_try ag path i w = (Inr out, w')"
  shows "\<exists>f r w2.
           find_feature i (loadFeatures path w) = Some f \<and>
           verifyFeatureTests ag f path (sendToRenderer (auto_mode_feature_start (f_id f) f) w)
             = (Inr r, w2) \<and>
           complete i f (if passes r then ''verified'' else ''in_progress'') path r w2
             = (Inr out, w')"
  using assms
  by (auto simp: verifyFeature_try_def split: option.splits prod.splits sum.splits)

lemma runFeature_status:
  assumes "runFeature ag path i w = (Inr out, w')" and "listed path i w'"
  shows "stored_status path i w' = Some (if outcome_passes out then ''verified'' else ''backlog'')"
proof -
  from assms(1) have nh: "\<not> has i w"
    and c: "catch_finally i (runFeature_try ag path i (register i path w)) = (Inr out, w')"
    by (auto simp: runFeature_def split: if_splits)
  from catch_finally_Inr [OF c] obtain w1
    where t: "runFeature_try ag path i (register i path w) = (Inr out, w1)"
      and w': "w' = unregister i w1" by blast
  from runFeature_try_Inr [OF t] obtain f r w2
    where f: "find_feature i (loadFeatures path (register i path w)) = Some f"
      and k: "complete (f_id f) f (if passes r then ''verified'' else ''backlog'') path r w2 = (Inr out, w1)"
    by blast
  from f have fi: "f_id f = i" by (rule find_feature_id)
  from complete_result [OF k] fi assms(2) w'
  show ?thesis by auto
qed

lemma verifyFeature_status:
  assumes "verifyFeature ag path i w = (Inr out, w')" and "listed path i w'"
  shows "stored_status path i w' = Some (if outcome_passes out then ''verified'' else ''in_progress'')"
proof -
  from assms(1) have nh: "\<not> has i w"
    and c: "catch_finally i (verifyFeature_try ag path i (register i path w)) = (Inr out, w')"
    by (auto simp: verifyFeature_def split: if_splits)
  from catch_finally_Inr [OF c] obtain w1
    where t: "verifyFeature_try ag path i (register i path w) = (Inr out, w1)"
      and w': "w' = unregister i w1" by blast
  from verifyFeature_try_Inr [OF t] obtain f r w2
    where k: "complete i f (if passes r then ''verified'' else ''in_progress'') path r w2 = (Inr out, w1)"
    by blast
  from complete_result [OF k] assms(2) w'
  show ?thesis by auto
qed

lemma loadFeatures_env: "env w' = env w \<Longrightarrow> loadFeatures path w' = loadFeatures path w"
  by (rule loadFeatures_cong) simp_all

lemma stored_status_env: "env w' = env w \<Longrightarrow> stored_status path j w' = stored_status path j w"
  using loadFeatures_env [of w' w path] by (simp add: stored_status_def)

lemma listed_env: "env w' = env w \<Longrightarrow> listed path j w' = listed path j w"
  using loadFeatures_env [of w' w path] by (simp add: listed_def)

lemma stored_status_frame2 [simp]:
  "stored_status path j (clear_execution i w) = stored_status path j w"
  "stored_status path j (send_query i q w) = stored_status path j w"
  "stored_status path j (new_AbortController i w) = stored_status path j w"
  "stored_status path j (map_execution i g w) = stored_status path j w"
  by (rule stored_status_env; simp)+

lemma updateFeatureStatus_keeps_logs:
  "s \<noteq> ''verified'' \<Longrightarrow>
   agents_context (env (snd (updateFeatureStatus i s path w))) = agents_context (env w)"
  by (simp add: updateFeatureStatus_def Let_def writeFeatures_def
      split: option.splits prod.splits sum.splits)

lemma implement_verification_result:
  assumes "implement_verification f path resp w = (r, w')"
  shows "passes r = (stored_status path (f_id f) w' = Some ''verified'')"
  using assms by (auto simp: implement_verification_def Let_def)

lemma verify_check_result:
  assumes "verify_check f path resp w = (r, w')"
  shows "passes r = (stored_status path (f_id f) w' = Some ''verified'')"
  using assms by (auto simp: verify_check_def Let_def)

lemma resume_check_result:
  assumes "resume_check f path resp w = (r, w')"
  shows "passes r = (stored_status path (f_id f) w' = Some ''verified'')"
  using assms by (auto simp: resume_check_def Let_def)

lemma implementFeature_completed:
  assumes "implementFeature ag f path w = (Inr r, w')" and "\<forall>qs. snd (ag qs) = EndOfStream"
  shows "passes r = (stored_status path (f_id f) w' = Some ''verified'')"
proof -
  from assms(1) have h: "has (f_id f) w"
    by (auto simp: implementFeature_def split: if_splits)
  obtain x w1 where act: "implement_action ag f path (implement_planning f path w) = (x, w1)"
    by (cases "implement_action ag f path (implement_planning f path w)")
  have "\<exists>resp started. x = Inr (resp, started)"
  proof (cases x)
    case (Inl err)
    with act assms(2) show ?thesis by (auto dest: implement_action_Inl)
  next
    case (Inr v)
    then show ?thesis by (cases v) simp
  qed
  then obtain resp started where x: "x = Inr (resp, started)" by blast
  from assms(1) h act x
  have v: "implement_verification f path resp (clear_execution (f_id f) w1) = (r, w')"
    by (simp add: implementFeature_def split: prod.splits)
  show ?thesis by (rule implement_verification_result [OF v])
qed

lemma verifyFeatureTests_completed:
  assumes "verifyFeatureTests ag f path w = (Inr r, w')" and "\<forall>qs. snd (ag qs) = EndOfStream"
  shows "passes r = (stored_status path (f_id f) w' = Some ''verified'')"
proof -
  from assms(1) have h: "has (f_id f) w"
    by (auto simp: verifyFeatureTests_def split: if_splits)
  obtain x w1 where act: "verify_action ag f path w = (x, w1)"
    by (cases "verify_action ag f path w")
  have "\<exists>resp. x = Inr resp"
  proof (cases x)
    case (Inl err)
    with act assms(2) show ?thesis by (auto dest: verify_action_Inl)
  next
    case (Inr v)
    then show ?thesis by simp
  qed
  then obtain resp where x: "x = Inr resp" by blast
  from assms(1) h act x
  have v: "verify_check f path resp (clear_execution (f_id f) w1) = (r, w')"
    by (simp add: verifyFeatureTests_def split: prod.splits)
  show ?thesis by (rule verify_check_result [OF v])
qed

lemma implementFeature_passes:
  assumes "implementFeature ag f path w = (Inr r, w')" and "passes r"
  shows "stored_status path (f_id f) w' = Some ''verified''"
proof -
  from assms(1) have h: "has (f_id f) w"
    by (auto simp: implementFeature_def split: if_splits)
  obtain x w1 where act: "implement_action ag f path (implement_planning f path w) = (x, w1)"
    by (cases "implement_action ag f path (implement_planning f path w)")
  show ?thesis
  proof (cases x)
    case (Inl err)
    with assms h act show ?thesis
      by (auto simp: implementFeature_def split: if_splits)
  next
    case (Inr v)
    obtain resp started where v: "v = (resp, started)" by (cases v)
    from assms(1) h act Inr v
    have "implement_verification f path resp (clear_execution (f_id f) w1) = (r, w')"
      by (simp add: implementFeature_def split: prod.splits)
    from implement_verification_result [OF this] assms(2) show ?thesis by simp
  qed
qed

lemma verifyFeatureTests_passes:
  assumes "verifyFeatureTests ag f path w = (Inr r, w')" and "passes r"
  shows "stored_status path (f_id f) w' = Some ''verified''"
proof -
  from assms(1) have h: "has (f_id f) w"
    by (auto simp: verifyFeatureTests_def split: if_splits)
  obtain x w1 where act: "verify_action ag f path w = (x, w1)"
    by (cases "verify_action ag f path w")
  show ?thesis
  proof (cases x)
    case (Inl err)
    with assms h act show ?thesis
      by (auto simp: verifyFeatureTests_def split: if_splits)
  next
    case (Inr resp)
    with assms(1) h act
    have "verify_check f path resp (clear_execution (f_id f) w1) = (r, w')"
      by (simp add: verifyFeatureTests_def split: prod.splits)
    from verify_check_result [OF this] assms(2) show ?thesis by simp
  qed
qed

lemma complete_keeps_logs:
  assumes "complete i f s path r w = (x, w')" and "s \<noteq> ''verified''"
  shows "env w' = env (snd (updateFeatureStatus i s path w))"
    and "agents_context (env w') = agents_context (env w)"
proof -
  show e: "env w' = env (snd (updateFeatureStatus i s path w))"
    using assms(1) by (auto simp: complete_def split: prod.splits sum.splits)
  show "agents_context (env w') = agents_context (env w)"
    using e updateFeatureStatus_keeps_logs [OF assms(2), of i path w] by simp
qed

lemma runFeature_Inr:
  assumes "runFeature ag path i w = (Inr out, w')"
  shows "\<exists>f u w0 r w2 w1.
           find_feature i (loadFeatures path w) = Some f \<and> f_id f = i \<and>
           updateFeatureStatus i ''in_progress'' path (register i path w) = (Inr u, w0) \<and>
           implementFeature ag f path (sendToRenderer (auto_mode_feature_start i f) w0)
             = (Inr r, w2) \<and>
           complete i f (if passes r then ''verified'' else ''backlog'') path r w2 = (Inr out, w1) \<and>
           outcome_passes out = passes r \<and>
           w' = unregister i w1"
proof -
  from assms have
    c: "catch_finally i (runFeature_try ag path i (register i path w)) = (Inr out, w')"
    by (auto simp: runFeature_def split: if_splits)
  from catch_finally_Inr [OF c] obtain w1
    where t: "runFeature_try ag path i (register i path w) = (Inr out, w1)"
      and w': "w' = unregister i w1" by blast
  from runFeature_try_Inr [OF t] obtain f u w0 r w2
    where f: "find_feature i (loadFeatures path (register i path w)) = Some f"
      and u: "updateFeatureStatus i ''in_progress'' path (register i path w) = (Inr u, w0)"
      and m: "implementFeature ag f path (sendToRenderer (auto_mode_feature_start (f_id f) f) w0)
                = (Inr r, w2)"
      and k: "complete (f_id f) f (if passes r then ''verified'' else ''backlog'') path r w2
                = (Inr out, w1)"
    by blast
  from f have fi: "f_id f = i" by (rule find_feature_id)
  from complete_result [OF k] have "outcome_passes out = passes r" by simp
  with f u m k fi w' show ?thesis by auto
qed

text \<open>The last status write of a non-passing run leaves every log as it finds it.\<close>

lemma runFeature_final_write:
  assumes "find_feature i (loadFeatures path w) = Some f"
    and "runFeature ag path i w = (Inr out, w')" and "\<not> outcome_passes out"
  shows "agents_context (env w') =
           agents_context (env (snd (implementFeature ag f path
             (sendToRenderer (auto_mode_feature_start i f)
                (snd (updateFeatureStatus i ''in_progress'' path (register i path w)))))))"
proof -
  from runFeature_Inr [OF assms(2)] assms(1) obtain u w0 r w2 w1
    where u: "updateFeatureStatus i ''in_progress'' path (register i path w) = (Inr u, w0)"
      and m: "implementFeature ag f path (sendToRenderer (auto_mode_feature_start i f) w0)
                = (Inr r, w2)"
      and k: "complete i f (if passes r then ''verified'' else ''backlog'') path r w2 = (Inr out, w1)"
      and p: "outcome_passes out = passes r"
      and w': "w' = unregister i w1"
    by auto
  from p assms(3) have np: "\<not> passes r" by simp
  with k have k': "complete i f ''backlog'' path r w2 = (Inr out, w1)" by simp
  from complete_keeps_logs(2) [OF k'] have "agents_context (env w1) = agents_context (env w2)"
    by simp
  with u m w' show ?thesis by simp
qed

section \<open>Keeping the execution log\<close>

lemma log_kept_refl: "log_kept k w w"
  by (simp add: log_kept_def)

lemma log_kept_trans:
  assumes "log_kept k a b" and "log_kept k b c"
  shows "log_kept k a c"
  unfolding log_kept_def
proof (intro impI conjI allI)
  assume r: "\<not> log_read_error (env a) k"
  with assms(1) have rb: "\<not> log_read_error (env b) k"
    and pb: "\<forall>l. agents_context (env a) k = Some l \<longrightarrow> (\<exists>l'. agents_context (env b) k = Some (l @ l'))"
    by (simp_all add: log_kept_def)
  with assms(2) have rc: "\<not> log_read_error (env c) k"
    and pc: "\<forall>l. agents_context (env b) k = Some l \<longrightarrow> (\<exists>l'. agents_context (env c) k = Some (l @ l'))"
    by (simp_all add: log_kept_def)
  show "\<not> log_read_error (env c) k" by (rule rc)
  fix l
  assume "agents_context (env a) k = Some l"
  with pb obtain l1 where "agents_context (env b) k = Some (l @ l1)" by blast
  with pc obtain l2 where "agents_context (env c) k = Some ((l @ l1) @ l2)" by blast
  then have "agents_context (env c) k = Some (l @ (l1 @ l2))" by simp
  then show "\<exists>l'. agents_context (env c) k = Some (l @ l')" by blast
qed

lemma log_kept_env: "env w' = env w \<Longrightarrow> log_kept k w w'"
  by (simp add: log_kept_def)

lemma log_kept_write: "log_kept k w (writeToContextFile p j content w)"
  by (auto simp: log_kept_def writeToContextFile_def readFile_log_def)

lemma updateFeatureStatus_log_read_error:
  "log_read_error (env (snd (updateFeatureStatus i s path w))) = log_read_error (env w)"
  by (simp add: updateFeatureStatus_def Let_def writeFeatures_def deleteContextFile_def unlink_def
      split: option.splits prod.splits sum.splits)

lemma log_kept_update:
  "s \<noteq> ''verified'' \<Longrightarrow> log_kept k w (snd (updateFeatureStatus i s path w))"
  by (simp add: log_kept_def updateFeatureStatus_log_read_error updateFeatureStatus_keeps_logs)

lemma kept_steps:
  "log_kept k w v \<Longrightarrow> log_kept k w (writeToContextFile p j content v)"
  "log_kept k w v \<Longrightarrow> log_kept k w (sendToRenderer ev v)"
  "log_kept k w v \<Longrightarrow> log_kept k w (map_execution i g v)"
  "log_kept k w v \<Longrightarrow> log_kept k w (clear_execution i v)"
  "log_kept k w v \<Longrightarrow> log_kept k w (new_AbortController i v)"
  "log_kept k w v \<Longrightarrow> log_kept k w (send_query i q v)"
  "log_kept k w v \<Longrightarrow> log_kept k w (register i p v)"
  "log_kept k w v \<Longrightarrow> log_kept k w (unregister i v)"
  "log_kept k w v \<Longrightarrow> log_kept k w (snd (stop v))"
proof -
  assume a: "log_kept k w v"
  show "log_kept k w (writeToContextFile p j content v)"
    by (rule log_kept_trans [OF a log_kept_write])
  show "log_kept k w (sendToRenderer ev v)"
    by (rule log_kept_trans [OF a]) (rule log_kept_env, simp)
  show "log_kept k w (map_execution i g v)"
    by (rule log_kept_trans [OF a]) (rule log_kept_env, simp)
  show "log_kept k w (clear_execution i v)"
    by (rule log_kept_trans [OF a]) (rule log_kept_env, simp)
  show "log_kept k w (new_AbortController i v)"
    by (rule log_kept_trans [OF a]) (rule log_kept_env, simp)
  show "log_kept k w (send_query i q v)"
    by (rule log_kept_trans [OF a]) (rule log_kept_env, simp)
  show "log_kept k w (register i p v)"
    by (rule log_kept_trans [OF a]) (rule log_kept_env, simp)
  show "log_kept k w (unregister i v)"
    by (rule log_kept_trans [OF a]) (rule log_kept_env, simp)
  show "log_kept k w (snd (stop v))"
    by (rule log_kept_trans [OF a]) (rule log_kept_env, simp)
qed

lemma kept_stream_block:
  "log_kept k w v \<Longrightarrow> log_kept k w (snd (stream_block p i (a, v) b))"
  by (cases b) (simp_all add: stream_block_def kept_steps)

lemma kept_implement_block:
  "log_kept k w v \<Longrightarrow> log_kept k w (snd (implement_block p i (a, v) b))"
  by (cases b; cases a) (simp_all add: implement_block_def Let_def kept_steps)

lemma kept_foldl:
  assumes h: "\<And>w a v b. log_kept k w v \<Longrightarrow> log_kept k w (snd (h (a, v) b))"
  shows "log_kept k w v \<Longrightarrow> log_kept k w (snd (foldl h (a, v) bs))"
proof (induction bs arbitrary: a v)
  case Nil
  then show ?case by simp
next
  case (Cons b bs)
  obtain a' v' where s: "h (a, v) b = (a', v')" by (cases "h (a, v) b")
  from h [OF Cons.prems, of a b] s have "log_kept k w v'" by simp
  from Cons.IH [OF this, of a'] s show ?case by simp
qed

lemma kept_for_await:
  assumes h: "\<And>w a v b. log_kept k w v \<Longrightarrow> log_kept k w (snd (h (a, v) b))"
  shows "silent items \<Longrightarrow> log_kept k w v \<Longrightarrow>
         log_kept k w (snd (for_await h p i items en (a, v)))"
proof (induction items arbitrary: a v)
  case Nil
  then show ?case by (cases en) simp_all
next
  case (Cons item rest)
  show ?case
  proof (cases item)
    case (Yield msg)
    with Cons.prems have s: "silent rest" by simp
    show ?thesis
    proof (cases msg)
      case (AssistantMessage content)
      obtain a' v' where f: "foldl h (a, v) content = (a', v')"
        by (cases "foldl h (a, v) content")
      from kept_foldl [of k h w v a content, OF h Cons.prems(2)] f
      have "log_kept k w v'" by simp
      from Cons.IH [OF s this, of a'] f Yield AssistantMessage Cons.prems(2)
      show ?thesis by simp
    next
      case OtherMessage
      with Cons.IH [OF s Cons.prems(2), of a] Yield Cons.prems(2) show ?thesis by simp
    qed
  next
    case (ToolCall j st)
    with Cons.prems show ?thesis by simp
  next
    case (EnvStep f)
    with Cons.prems show ?thesis by simp
  next
    case StopRequested
    with Cons.prems have s: "silent rest" by simp
    from Cons.IH [OF s kept_steps(9) [OF Cons.prems(2)], of a] StopRequested
    show ?thesis by simp
  qed
qed

lemma kept_implement_planning:
  "log_kept k w v \<Longrightarrow> log_kept k w (implement_planning f p v)"
  by (simp add: implement_planning_def Let_def kept_steps)

lemma kept_implement_action:
  assumes "\<forall>qs. silent (fst (ag qs))" and "log_kept k w v"
  shows "log_kept k w (snd (implement_action ag f p v))"
  unfolding implement_action_def Let_def
  by (rule kept_for_await) (simp_all add: assms kept_implement_block kept_steps)

lemma kept_implement_verification:
  "log_kept k w v \<Longrightarrow> log_kept k w (snd (implement_verification f p resp v))"
  by (simp add: implement_verification_def Let_def kept_steps)

lemma kept_implementFeature:
  assumes s: "\<forall>qs. silent (fst (ag qs))" and a: "log_kept k w v"
  shows "log_kept k w (snd (implementFeature ag f p v))"
proof (cases "has (f_id f) v")
  case False
  with a show ?thesis by (simp add: implementFeature_def)
next
  case True
  obtain x v1 where act: "implement_action ag f p (implement_planning f p v) = (x, v1)"
    by (cases "implement_action ag f p (implement_planning f p v)")
  have "log_kept k w (implement_planning f p v)"
    by (rule kept_implement_planning [OF a])
  from kept_implement_action [OF s this, where f = f and p = p] act
  have k1: "log_kept k w v1" by simp
  show ?thesis
  proof (cases x)
    case (Inl err)
    with True act k1 show ?thesis by (simp add: implementFeature_def kept_steps)
  next
    case (Inr y)
    obtain resp started where y: "y = (resp, started)" by (cases y)
    obtain r v2 where ver: "implement_verification f p resp (clear_execution (f_id f) v1) = (r, v2)"
      by (cases "implement_verification f p resp (clear_execution (f_id f) v1)")
    have "log_kept k w (clear_execution (f_id f) v1)"
      by (rule kept_steps(4) [OF k1])
    from kept_implement_verification [OF this, where f = f and p = p and resp = resp] ver
    have "log_kept k w v2" by simp
    with True act Inr y ver show ?thesis by (simp add: implementFeature_def)
  qed
qed

text \<open>
  A non-passing run of a delegate that never calls the status-update tool, in an
  environment that does not act, keeps every log that can be read.
\<close>

lemma runFeature_keeps_log:
  assumes run: "runFeature ag path i w = (Inr out, w')" and np: "\<not> outcome_passes out"
    and s: "\<forall>qs. silent (fst (ag qs))"
  shows "log_kept k w w'"
proof -
  from runFeature_Inr [OF run] obtain f u w0 r w2 w1
    where u: "updateFeatureStatus i ''in_progress'' path (register i path w) = (Inr u, w0)"
      and m: "implementFeature ag f path (sendToRenderer (auto_mode_feature_start i f) w0)
                = (Inr r, w2)"
      and c: "complete i f (if passes r then ''verified'' else ''backlog'') path r w2 = (Inr out, w1)"
      and p: "outcome_passes out = passes r"
      and w': "w' = unregister i w1"
    by blast
  have 1: "log_kept k w (register i path w)"
    by (rule kept_steps(7) [OF log_kept_refl])
  have "log_kept k (register i path w) (snd (updateFeatureStatus i ''in_progress'' path (register i path w)))"
    by (rule log_kept_update) simp
  with u have "log_kept k (register i path w) w0" by simp
  with 1 have 2: "log_kept k w w0" by (rule log_kept_trans)
  have "log_kept k w (sendToRenderer (auto_mode_feature_start i f) w0)"
    by (rule kept_steps(2) [OF 2])
  from kept_implementFeature [OF s this, where f = f and p = path] m
  have 3: "log_kept k w w2" by simp
  from p np c have c': "complete i f ''backlog'' path r w2 = (Inr out, w1)" by simp
  from complete_keeps_logs(1) [OF c'] have e: "env w1 = env (snd (updateFeatureStatus i ''backlog'' path w2))"
    by simp
  have "log_kept k w2 (snd (updateFeatureStatus i ''backlog'' path w2))"
    by (rule log_kept_update) simp
  with e have "log_kept k w2 w1" by (simp add: log_kept_def)
  with 3 have "log_kept k w w1" by (rule log_kept_trans)
  with w' show ?thesis by (simp add: kept_steps)
qed

text \<open>
  C3, as the code has it. After a \<open>runFeature\<close> that returns, a feature that is still
  listed has the stored status \<open>verified\<close> when the outcome passes and \<open>backlog\<close> when it
  does not; after a \<open>verifyFeature\<close> that returns it has \<open>verified\<close> or \<open>in_progress\<close>,
  never \<open>backlog\<close>. The status write of a non-passing \<open>runFeature\<close> deletes no log: the
  logs after the run are those the state machine returned. When moreover the delegate
  never calls the status-update tool, the environment does not act and the log of the
  feature can be read and written, what the log held before the run is the beginning of
  what it holds after the run. When the delegate's stream ends without raising, the
  result of the state machine passes exactly when the store, reloaded in the state the
  state machine returns, shows the feature as \<open>verified\<close>. However the stream ends, a
  passing result means that the reloaded store shows \<open>verified\<close>.
\<close>

theorem status_resolution:
  "(runFeature ag path i w = (Inr out, w') \<and> listed path i w' \<longrightarrow>
      stored_status path i w' = Some (if outcome_passes out then ''verified'' else ''backlog'')) \<and>
   (verifyFeature ag path i w = (Inr out, w') \<and> listed path i w' \<longrightarrow>
      stored_status path i w' = Some (if outcome_passes out then ''verified'' else ''in_progress'') \<and>
      stored_status path i w' \<noteq> Some ''backlog'') \<and>
   (find_feature i (loadFeatures path w) = Some g \<and>
      runFeature ag path i w = (Inr out, w') \<and> \<not> outcome_passes out \<longrightarrow>
      agents_context (env w') =
        agents_context (env (snd (implementFeature ag g path
          (sendToRenderer (auto_mode_feature_start i g)
             (snd (updateFeatureStatus i ''in_progress'' path (register i path w)))))))) \<and>
   (runFeature ag path i w = (Inr out, w') \<and> \<not> outcome_passes out \<and>
      (\<forall>qs. silent (fst (ag qs))) \<and>
      \<not> log_read_error (env w) (path, i) \<and> \<not> log_write_error (env w) (path, i) \<and>
      agents_context (env w) (path, i) = Some l \<longrightarrow>
      (\<exists>l'. agents_context (env w') (path, i) = Some (l @ l'))) \<and>
   (implementFeature ag f path v = (Inr r, v') \<and> (\<forall>qs. snd (ag qs) = EndOfStream) \<longrightarrow>
      passes r = (stored_status path (f_id f) v' = Some ''verified'')) \<and>
   (verifyFeatureTests ag f path v = (Inr r, v') \<and> (\<forall>qs. snd (ag qs) = EndOfStream) \<longrightarrow>
      passes r = (stored_status path (f_id f) v' = Some ''verified'')) \<and>
   (implementFeature ag f path v = (Inr r, v') \<and> passes r \<longrightarrow>
      stored_status path (f_id f) v' = Some ''verified'') \<and>
   (verifyFeatureTests ag f path v = (Inr r, v') \<and> passes r \<longrightarrow>
      stored_status path (f_id f) v' = Some ''verified'')"
proof (intro conjI impI)
  assume "runFeature ag path i w = (Inr out, w') \<and> listed path i w'"
  then show "stored_status path i w' = Some (if outcome_passes out then ''verified'' else ''backlog'')"
    using runFeature_status by blast
next
  assume a: "verifyFeature ag path i w = (Inr out, w') \<and> listed path i w'"
  then show "stored_status path i w' = Some (if outcome_passes out then ''verified'' else ''in_progress'')"
    using verifyFeature_status by blast
  then show "stored_status path i w' \<noteq> Some ''backlog''"
    by (simp split: if_splits)
next
  assume "find_feature i (loadFeatures path w) = Some g \<and>
      runFeature ag path i w = (Inr out, w') \<and> \<not> outcome_passes out"
  then show "agents_context (env w') =
        agents_context (env (snd (implementFeature ag g path
          (sendToRenderer (auto_mode_feature_start i g)
             (snd (updateFeatureStatus i ''in_progress'' path (register i path w)))))))"
    using runFeature_final_write by blast
next
  assume a: "runFeature ag path i w = (Inr out, w') \<and> \<not> outcome_passes out \<and>
      (\<forall>qs. silent (fst (ag qs))) \<and>
      \<not> log_read_error (env w) (path, i) \<and> \<not> log_write_error (env w) (path, i) \<and>
      agents_context (env w) (path, i) = Some l"
  then have "log_kept (path, i) w w'"
    using runFeature_keeps_log by blast
  with a show "\<exists>l'. agents_context (env w') (path, i) = Some (l @ l')"
    by (simp add: log_kept_def)
next
  assume "implementFeature ag f path v = (Inr r, v') \<and> (\<forall>qs. snd (ag qs) = EndOfStream)"
  then show "passes r = (stored_status path (f_id f) v' = Some ''verified'')"
    using implementFeature_completed(1) by blast
next
  assume "verifyFeatureTests ag f path v = (Inr r, v') \<and> (\<forall>qs. snd (ag qs) = EndOfStream)"
  then show "passes r = (stored_status path (f_id f) v' = Some ''verified'')"
    using verifyFeatureTests_completed by blast
next
  assume "implementFeature ag f path v = (Inr r, v') \<and> passes r"
  then show "stored_status path (f_id f) v' = Some ''verified''"
    using implementFeature_passes by blast
next
  assume "verifyFeatureTests ag f path v = (Inr r, v') \<and> passes r"
  then show "stored_status path (f_id f) v' = Some ''verified''"
    using verifyFeatureTests_passes by blast
qed

lemmas run_defs =
  runFeature_def runFeature_try_def catch_finally_def complete_def
  verifyFeature_def verifyFeature_try_def
  implementFeature_def implement_planning_def implement_action_def implement_verification_def
  implement_request_def implement_block_def
  verifyFeatureTests_def verify_action_def verify_check_def verify_request_def stream_block_def
  updateFeatureStatus_def writeFeatures_def deleteContextFile_def unlink_def
  UpdateFeatureStatus_tool_def
  loadFeatures_def find_feature_def with_id_def id_or_generated_def generated_id_def
  stored_status_def listed_def
  register_def unregister_def sendToRenderer_def writeToContextFile_eval
  new_AbortController_def send_query_def map_execution_def clear_execution_def has_def
  toSave_def readFile_log_def
  w0_def constructor_def env0_def raw1_def raw_noid_def feature1_def

lemma run_quiet:
  "fst (runFeature quiet_agent ''/p'' ''f1'' w0) = Inr (Outcome True False)"
  "listed ''/p'' ''f1'' (snd (runFeature quiet_agent ''/p'' ''f1'' w0))"
  by (simp_all add: run_defs quiet_agent_def Let_def)

lemma run_verifying:
  "fst (runFeature verifying_agent ''/p'' ''f1'' w0) = Inr (Outcome True True)"
  "listed ''/p'' ''f1'' (snd (runFeature verifying_agent ''/p'' ''f1'' w0))"
  by (simp_all add: run_defs verifying_agent_def Let_def)

lemma verify_quiet:
  "fst (verifyFeature quiet_agent ''/p'' ''f1'' w0) = Inr (Outcome True False)"
  "listed ''/p'' ''f1'' (snd (verifyFeature quiet_agent ''/p'' ''f1'' w0))"
  by (simp_all add: run_defs quiet_agent_def Let_def)

lemma machine_quiet:
  "fst (implementFeature quiet_agent feature1 ''/p'' (register ''f1'' ''/p'' w0))
     = Inr \<lparr>passes = False, message = ''thinking''\<rparr>"
  "fst (verifyFeatureTests quiet_agent feature1 ''/p'' (register ''f1'' ''/p'' w0))
     = Inr \<lparr>passes = False, message = ''thinking''\<rparr>"
  by (simp_all add: run_defs quiet_agent_def Let_def)

lemma machine_verifying:
  "fst (implementFeature verifying_agent feature1 ''/p'' (register ''f1'' ''/p'' w0))
     = Inr \<lparr>passes = True, message = ''done''\<rparr>"
  "fst (verifyFeatureTests verifying_agent feature1 ''/p'' (register ''f1'' ''/p'' w0))
     = Inr \<lparr>passes = True, message = ''done''\<rparr>"
  by (simp_all add: run_defs verifying_agent_def Let_def)

lemma found_f1: "find_feature ''f1'' (loadFeatures ''/p'' w0) = Some feature1"
  by (simp add: loadFeatures_def find_feature_def with_id_def id_or_generated_def
      w0_def constructor_def env0_def raw1_def feature1_def)

lemma pair_fst_snd: "fst p = a \<Longrightarrow> p = (a, snd p)"
  by (cases p) simp

theorem status_resolution_witness:
  "runFeature quiet_agent ''/p'' ''f1'' w0
     = (Inr (Outcome True False), snd (runFeature quiet_agent ''/p'' ''f1'' w0)) \<and>
   listed ''/p'' ''f1'' (snd (runFeature quiet_agent ''/p'' ''f1'' w0)) \<and>
   (\<forall>qs. snd (quiet_agent qs) = EndOfStream) \<and>
   stored_status ''/p'' ''f1'' (snd (runFeature quiet_agent ''/p'' ''f1'' w0)) = Some ''backlog'' \<and>
   find_feature ''f1'' (loadFeatures ''/p'' w0) = Some feature1 \<and>
   agents_context (env (snd (runFeature quiet_agent ''/p'' ''f1'' w0))) =
     agents_context (env (snd (implementFeature quiet_agent feature1 ''/p''
       (sendToRenderer (auto_mode_feature_start ''f1'' feature1)
          (snd (updateFeatureStatus ''f1'' ''in_progress'' ''/p'' (register ''f1'' ''/p'' w0))))))) \<and>
   (\<forall>qs. silent (fst (quiet_agent qs))) \<and>
   \<not> log_read_error (env w0) (''/p'', ''f1'') \<and> \<not> log_write_error (env w0) (''/p'', ''f1'') \<and>
   agents_context (env w0) (''/p'', ''f1'') = Some ''log of f1'' \<and>
   map_option (take 9) (agents_context (env (snd (runFeature quiet_agent ''/p'' ''f1'' w0))) (''/p'', ''f1''))
     = Some ''log of f1'' \<and>
   runFeature verifying_agent ''/p'' ''f1'' w0
     = (Inr (Outcome True True), snd (runFeature verifying_agent ''/p'' ''f1'' w0)) \<and>
   stored_status ''/p'' ''f1'' (snd (runFeature verifying_agent ''/p'' ''f1'' w0)) = Some ''verified'' \<and>
   verifyFeature quiet_agent ''/p'' ''f1'' w0
     = (Inr (Outcome True False), snd (verifyFeature quiet_agent ''/p'' ''f1'' w0)) \<and>
   stored_status ''/p'' ''f1'' (snd (verifyFeature quiet_agent ''/p'' ''f1'' w0)) = Some ''in_progress'' \<and>
   implementFeature quiet_agent feature1 ''/p'' (register ''f1'' ''/p'' w0)
     = (Inr \<lparr>passes = False, message = ''thinking''\<rparr>,
        snd (implementFeature quiet_agent feature1 ''/p'' (register ''f1'' ''/p'' w0))) \<and>
   stored_status ''/p'' ''f1''
     (snd (implementFeature quiet_agent feature1 ''/p'' (register ''f1'' ''/p'' w0))) \<noteq> Some ''verified'' \<and>
   stored_status ''/p'' ''f1''
     (snd (verifyFeatureTests quiet_agent feature1 ''/p'' (register ''f1'' ''/p'' w0))) \<noteq> Some ''verified'' \<and>
   implementFeature verifying_agent feature1 ''/p'' (register ''f1'' ''/p'' w0)
     = (Inr \<lparr>passes = True, message = ''done''\<rparr>,
        snd (implementFeature verifying_agent feature1 ''/p'' (register ''f1'' ''/p'' w0))) \<and>
   stored_status ''/p'' ''f1''
     (snd (implementFeature verifying_agent feature1 ''/p'' (register ''f1'' ''/p'' w0)))
     = Some ''verified'' \<and>
   stored_status ''/p'' ''f1''
     (snd (verifyFeatureTests verifying_agent feature1 ''/p'' (register ''f1'' ''/p'' w0)))
     = Some ''verified''"
proof -
  have q: "\<forall>qs. snd (quiet_agent qs) = EndOfStream" by (simp add: quiet_agent_def)
  note a = pair_fst_snd [OF run_quiet(1)]
  note b = pair_fst_snd [OF run_verifying(1)]
  note c = pair_fst_snd [OF verify_quiet(1)]
  note d = pair_fst_snd [OF machine_quiet(1)]
  note e = pair_fst_snd [OF machine_quiet(2)]
  have i: "f_id feature1 = ''f1''" by (simp add: feature1_def)
  have s: "\<forall>qs. silent (fst (quiet_agent qs))" by (simp add: quiet_agent_def)
  have n: "\<not> log_read_error (env w0) (''/p'', ''f1'')" "\<not> log_write_error (env w0) (''/p'', ''f1'')"
    "agents_context (env w0) (''/p'', ''f1'') = Some ''log of f1''"
    by (simp_all add: w0_def constructor_def env0_def)
  note t = status_resolution [where ag = quiet_agent and path = "''/p''" and i = "''f1''" and w = w0
      and out = "Outcome True False" and w' = "snd (runFeature quiet_agent ''/p'' ''f1'' w0)"
      and f = feature1 and v = "register ''f1'' ''/p'' w0"
      and r = "\<lparr>passes = False, message = ''thinking''\<rparr>"
      and v' = "snd (implementFeature quiet_agent feature1 ''/p'' (register ''f1'' ''/p'' w0))"
      and g = feature1 and l = "''log of f1''"]
  from t a run_quiet(2) q d i
  have 1: "stored_status ''/p'' ''f1'' (snd (runFeature quiet_agent ''/p'' ''f1'' w0)) = Some ''backlog''"
    and 3: "stored_status ''/p'' ''f1''
     (snd (implementFeature quiet_agent feature1 ''/p'' (register ''f1'' ''/p'' w0))) \<noteq> Some ''verified''"
    by simp_all
  from t a found_f1
  have 2: "agents_context (env (snd (runFeature quiet_agent ''/p'' ''f1'' w0))) =
     agents_context (env (snd (implementFeature quiet_agent feature1 ''/p''
       (sendToRenderer (auto_mode_feature_start ''f1'' feature1)
          (snd (updateFeatureStatus ''f1'' ''in_progress'' ''/p'' (register ''f1'' ''/p'' w0)))))))"
    by simp
  from t a s n
  have "\<exists>l'. agents_context (env (snd (runFeature quiet_agent ''/p'' ''f1'' w0))) (''/p'', ''f1'')
          = Some (''log of f1'' @ l')"
    by simp
  then have 9: "map_option (take 9)
      (agents_context (env (snd (runFeature quiet_agent ''/p'' ''f1'' w0))) (''/p'', ''f1''))
     = Some ''log of f1''"
    by auto
  from status_resolution [where ag = verifying_agent and path = "''/p''" and i = "''f1''" and w = w0
      and out = "Outcome True True" and w' = "snd (runFeature verifying_agent ''/p'' ''f1'' w0)"]
    b run_verifying(2)
  have 4: "stored_status ''/p'' ''f1'' (snd (runFeature verifying_agent ''/p'' ''f1'' w0)) = Some ''verified''"
    by simp
  from status_resolution [where ag = quiet_agent and path = "''/p''" and i = "''f1''" and w = w0
      and out = "Outcome True False" and w' = "snd (verifyFeature quiet_agent ''/p'' ''f1'' w0)"
      and f = feature1 and v = "register ''f1'' ''/p'' w0"
      and r = "\<lparr>passes = False, message = ''thinking''\<rparr>"
      and v' = "snd (verifyFeatureTests quiet_agent feature1 ''/p'' (register ''f1'' ''/p'' w0))"]
    c verify_quiet(2) q e i
  have 5: "stored_status ''/p'' ''f1'' (snd (verifyFeature quiet_agent ''/p'' ''f1'' w0)) = Some ''in_progress''"
    and 6: "stored_status ''/p'' ''f1''
     (snd (verifyFeatureTests quiet_agent feature1 ''/p'' (register ''f1'' ''/p'' w0))) \<noteq> Some ''verified''"
    by simp_all
  note g = pair_fst_snd [OF machine_verifying(1)]
  note h = pair_fst_snd [OF machine_verifying(2)]
  from status_resolution [where ag = verifying_agent and path = "''/p''" and f = feature1
      and v = "register ''f1'' ''/p'' w0" and r = "\<lparr>passes = True, message = ''done''\<rparr>"
      and v' = "snd (implementFeature verifying_agent feature1 ''/p'' (register ''f1'' ''/p'' w0))"]
    g i
  have 7: "stored_status ''/p'' ''f1''
     (snd (implementFeature verifying_agent feature1 ''/p'' (register ''f1'' ''/p'' w0)))
     = Some ''verified''"
    by simp
  from status_resolution [where ag = verifying_agent and path = "''/p''" and f = feature1
      and v = "register ''f1'' ''/p'' w0" and r = "\<lparr>passes = True, message = ''done''\<rparr>"
      and v' = "snd (verifyFeatureTests verifying_agent feature1 ''/p'' (register ''f1'' ''/p'' w0))"]
    h i
  have 8: "stored_status ''/p'' ''f1''
     (snd (verifyFeatureTests verifying_agent feature1 ''/p'' (register ''f1'' ''/p'' w0)))
     = Some ''verified''"
    by simp
  from a run_quiet(2) q 1 found_f1 2 s n 9 b 4 c 5 d 3 6 g 7 8 show ?thesis by blast
qed

text \<open>
  The claim C3 says that the result passes exactly when the reloaded store shows
  \<open>verified\<close>, and that a non-passing run keeps its log. In a cancelled run that is not
  so: the delegate marks the feature \<open>verified\<close> (which deletes the log), then the loop
  is stopped and the stream raises the cancellation. The state machine returns the
  non-passing result although the store shows \<open>verified\<close>; \<open>runFeature\<close> returns the
  non-passing outcome and writes \<open>backlog\<close>, and the log is gone.
\<close>

theorem cancelled_run_does_not_pass:
  "fst (implementFeature aborting_agent feature1 ''/p'' (register ''f1'' ''/p'' w0))
     = Inr \<lparr>passes = False, message = ''Auto mode aborted''\<rparr> \<and>
   stored_status ''/p'' ''f1''
     (snd (implementFeature aborting_agent feature1 ''/p'' (register ''f1'' ''/p'' w0)))
     = Some ''verified'' \<and>
   fst (runFeature aborting_agent ''/p'' ''f1'' w0) = Inr (Outcome True False) \<and>
   stored_status ''/p'' ''f1'' (snd (runFeature aborting_agent ''/p'' ''f1'' w0)) = Some ''backlog'' \<and>
   agents_context (env (snd (runFeature aborting_agent ''/p'' ''f1'' w0))) (''/p'', ''f1'') = None"
  by (simp add: run_defs aborting_agent_def abort_error_def is_abort_def stop_def
      abort_entry_def Let_def)

section \<open>Resuming a feature\<close>

lemma resumeFeature_try_Inr:
  assumes "resumeFeature_try ag path i w = (Inr out, w')"
  shows "\<exists>f r w2.
           find_feature i (loadFeatures path w) = Some f \<and>
           complete i f (if passes r then ''verified'' else ''in_progress'') path r w2
             = (Inr out, w')"
proof -
  from assms obtain f where f: "find_feature i (loadFeatures path w) = Some f"
    by (cases "find_feature i (loadFeatures path w)") (simp_all add: resumeFeature_try_def)
  let ?w0 = "sendToRenderer (auto_mode_feature_start (f_id f) f) w"
  obtain x w1 where a: "resumeFeatureWithContext ag f path (readContextFile path i ?w0) ?w0 = (x, w1)"
    by (cases "resumeFeatureWithContext ag f path (readContextFile path i ?w0) ?w0")
  from assms f a obtain r0 where x: "x = Inr r0"
    by (cases x) (simp_all add: resumeFeature_try_def)
  obtain y w2 where l: "retry_loop ag f path i 0 r0 w1 = (y, w2)"
    by (cases "retry_loop ag f path i 0 r0 w1")
  from assms f a x l obtain r where y: "y = Inr r"
    by (cases y) (simp_all add: resumeFeature_try_def)
  from assms f a x l y
  have "complete i f (if passes r then ''verified'' else ''in_progress'') path r w2 = (Inr out, w')"
    by (simp add: resumeFeature_try_def)
  with f show ?thesis by blast
qed

lemma resumeFeature_status:
  assumes "resumeFeature ag path i w = (Inr out, w')" and "listed path i w'"
  shows "stored_status path i w' = Some (if outcome_passes out then ''verified'' else ''in_progress'')"
proof -
  from assms(1) have
    c: "catch_finally i (resumeFeature_try ag path i (register i path w)) = (Inr out, w')"
    by (auto simp: resumeFeature_def split: if_splits)
  from catch_finally_Inr [OF c] obtain w1
    where t: "resumeFeature_try ag path i (register i path w) = (Inr out, w1)"
      and w': "w' = unregister i w1" by blast
  from resumeFeature_try_Inr [OF t] obtain f r w2
    where k: "complete i f (if passes r then ''verified'' else ''in_progress'') path r w2 = (Inr out, w1)"
    by blast
  from complete_result [OF k] assms(2) w'
  show ?thesis by auto
qed

text \<open>
  C10. Whenever \<open>resumeFeature\<close> returns a non-passing outcome, the status it leaves in
  the store for a feature that is still listed is \<open>in_progress\<close>, whatever the delegate
  wrote during the run.
\<close>

theorem resume_failure_writes_in_progress:
  "resumeFeature ag path featureId w = (Inr out, w') \<and> \<not> outcome_passes out \<and>
   listed path featureId w' \<longrightarrow>
   stored_status path featureId w' = Some ''in_progress''"
  using resumeFeature_status [of ag path featureId w out w'] by auto

lemmas resume_defs =
  resumeFeature_def resumeFeature_try_def catch_finally_def complete_def
  resumeFeatureWithContext_def resume_action_def resume_check_def resume_request_def
  stream_block_def readContextFile_def readFile_log_def
  updateFeatureStatus_def writeFeatures_def deleteContextFile_def unlink_def
  UpdateFeatureStatus_tool_def
  loadFeatures_def find_feature_def with_id_def id_or_generated_def generated_id_def
  stored_status_def listed_def
  register_def unregister_def sendToRenderer_def writeToContextFile_eval
  new_AbortController_def send_query_def map_execution_def clear_execution_def has_def
  toSave_def maxAttempts_def retry_loop.simps
  w0_def constructor_def env0_def raw1_def raw_noid_def feature1_def

lemma resume_backlog:
  "fst (resumeFeature backlog_agent ''/p'' ''f1'' w_in_progress) = Inr (Outcome True False)"
  "listed ''/p'' ''f1'' (snd (resumeFeature backlog_agent ''/p'' ''f1'' w_in_progress))"
  "length (queries (snd (resumeFeature backlog_agent ''/p'' ''f1'' w_in_progress))) = 1"
  by (simp_all add: resume_defs backlog_agent_def w_in_progress_def Let_def)

theorem resume_failure_writes_in_progress_witness:
  "resumeFeature backlog_agent ''/p'' ''f1'' w_in_progress
     = (Inr (Outcome True False), snd (resumeFeature backlog_agent ''/p'' ''f1'' w_in_progress)) \<and>
   listed ''/p'' ''f1'' (snd (resumeFeature backlog_agent ''/p'' ''f1'' w_in_progress)) \<and>
   length (queries (snd (resumeFeature backlog_agent ''/p'' ''f1'' w_in_progress))) = 1 \<and>
   stored_status ''/p'' ''f1'' (snd (resumeFeature backlog_agent ''/p'' ''f1'' w_in_progress))
     = Some ''in_progress''"
proof -
  note a = pair_fst_snd [OF resume_backlog(1)]
  from resume_failure_writes_in_progress [of backlog_agent "''/p''" "''f1''" w_in_progress
      "Outcome True False" "snd (resumeFeature backlog_agent ''/p'' ''f1'' w_in_progress)"]
    a resume_backlog(2)
  have "stored_status ''/p'' ''f1'' (snd (resumeFeature backlog_agent ''/p'' ''f1'' w_in_progress))
     = Some ''in_progress''" by simp
  with a resume_backlog(2,3) show ?thesis by blast
qed

lemma resume_action_queries:
  "length (queries (snd (resume_action ag f path ctx w))) = Suc (length (queries w))"
proof -
  have "queries (snd (for_await (stream_block path (f_id f)) path (f_id f) items en (a, v)))
          = queries v" for items en a v
    by (rule for_await_frame) simp_all
  then show ?thesis by (simp add: resume_action_def Let_def)
qed

lemma resumeFeatureWithContext_queries:
  assumes "has (f_id f) w"
  shows "length (queries (snd (resumeFeatureWithContext ag f path ctx w))) = Suc (length (queries w))"
proof -
  obtain x w1 where a: "resume_action ag f path ctx w = (x, w1)"
    by (cases "resume_action ag f path ctx w")
  with resume_action_queries [of ag f path ctx w]
  have q: "length (queries w1) = Suc (length (queries w))" by simp
  show ?thesis
  proof (cases x)
    case (Inl err)
    with a q assms show ?thesis by (simp add: resumeFeatureWithContext_def)
  next
    case (Inr resp)
    with a q assms show ?thesis
      by (simp add: resumeFeatureWithContext_def resume_check_def Let_def)
  qed
qed

lemma stays_in_progressD:
  assumes "stays_in_progress ag path i" and "f_id f = i" and "has i w"
    and "stored_status path i w = Some ''in_progress''" and "writeFile_error (env w) path = None"
  shows "\<exists>r w'. resumeFeatureWithContext ag f path ctx w = (Inr r, w') \<and> \<not> passes r \<and>
           has i w' \<and> stored_status path i w' = Some ''in_progress'' \<and>
           writeFile_error (env w') path = None \<and>
           length (queries w') = Suc (length (queries w))"
proof -
  obtain x w' where a: "resumeFeatureWithContext ag f path ctx w = (x, w')"
    by (cases "resumeFeatureWithContext ag f path ctx w")
  from assms(1) have s: "\<forall>feature previousContext w.
        f_id feature = i \<and> has i w \<and> stored_status path i w = Some ''in_progress'' \<and>
        writeFile_error (env w) path = None \<longrightarrow>
        (case resumeFeatureWithContext ag feature path previousContext w of
           (Inr result, w') \<Rightarrow>
             \<not> passes result \<and> has i w' \<and> stored_status path i w' = Some ''in_progress'' \<and>
             writeFile_error (env w') path = None
         | (Inl error, w') \<Rightarrow> False)"
    unfolding stays_in_progress_def .
  have
    "case resumeFeatureWithContext ag f path ctx w of
       (Inr result, w') \<Rightarrow>
         \<not> passes result \<and> has i w' \<and> stored_status path i w' = Some ''in_progress'' \<and>
         writeFile_error (env w') path = None
     | (Inl error, w') \<Rightarrow> False"
    using s [rule_format, where feature = f and w = w and previousContext = ctx] assms(2-5)
    by simp
  with a obtain r where x: "x = Inr r" and p: "\<not> passes r" "has i w'"
    "stored_status path i w' = Some ''in_progress''" "writeFile_error (env w') path = None"
    by (cases x) simp_all
  from resumeFeatureWithContext_queries [of f w ag path ctx] assms(2,3) a
  have "length (queries w') = Suc (length (queries w))" by simp
  with a x p show ?thesis by blast
qed

lemma retry_loop_exhausts:
  assumes sip: "stays_in_progress ag path i" and fi: "f_id f = i"
  shows "n = maxAttempts - attempts \<Longrightarrow> attempts \<le> maxAttempts \<Longrightarrow> \<not> passes r \<Longrightarrow> has i w \<Longrightarrow>
         stored_status path i w = Some ''in_progress'' \<Longrightarrow> writeFile_error (env w) path = None \<Longrightarrow>
         \<exists>r' w'. retry_loop ag f path i attempts r w = (Inr r', w') \<and> \<not> passes r' \<and>
            has i w' \<and> stored_status path i w' = Some ''in_progress'' \<and>
            writeFile_error (env w') path = None \<and>
            length (queries w') = length (queries w) + n"
proof (induction n arbitrary: attempts r w)
  case 0
  then have "attempts = maxAttempts" by simp
  with 0 show ?case by (simp add: retry_loop.simps)
next
  case (Suc n)
  then have lt: "attempts < maxAttempts" and n: "n = maxAttempts - Suc attempts" by simp_all
  let ?wm = "sendToRenderer (auto_mode_progress (f_id f) (retry_notice (Suc attempts)))
               (writeToContextFile path i (retry_marker (Suc attempts)) w)"
  have m: "has i ?wm" "stored_status path i ?wm = Some ''in_progress''"
    "writeFile_error (env ?wm) path = None" "queries ?wm = queries w"
    using Suc.prems by simp_all
  from stays_in_progressD [OF sip fi m(1,2,3), of "readContextFile path i ?wm"]
  obtain r1 w1 where a: "resumeFeatureWithContext ag f path (readContextFile path i ?wm) ?wm = (Inr r1, w1)"
    and p: "\<not> passes r1" "has i w1" "stored_status path i w1 = Some ''in_progress''"
      "writeFile_error (env w1) path = None"
    and q: "length (queries w1) = Suc (length (queries ?wm))"
    by blast
  from lt have le: "Suc attempts \<le> maxAttempts" by simp
  from Suc.IH [OF n le p] obtain r' w'
    where l: "retry_loop ag f path i (Suc attempts) r1 w1 = (Inr r', w')"
      and p': "\<not> passes r'" "has i w'" "stored_status path i w' = Some ''in_progress''"
        "writeFile_error (env w') path = None"
      and q': "length (queries w') = length (queries w1) + n"
    by blast
  have "retry_loop ag f path i attempts r w = (Inr r', w')"
    using Suc.prems lt a l by (subst retry_loop.simps) simp
  with p' q q' m(4) show ?case by simp
qed

lemma listed_if_stored: "stored_status path i w = Some s \<Longrightarrow> listed path i w"
  by (auto simp: stored_status_def listed_def split: option.splits)

lemma complete_listed:
  assumes "listed path i w" and "writeFile_error (env w) path = None"
  shows "fst (complete i f s path r w) = Inr (Outcome True (passes r))"
    and "queries (snd (complete i f s path r w)) = queries w"
    and "stored_status path i (snd (complete i f s path r w)) = Some s"
proof -
  obtain w1 where u: "updateFeatureStatus i s path w = (Inr (), w1)"
    using updateFeatureStatus_listed [OF assms, of s] by simp
  then have c: "complete i f s path r w =
      (Inr (Outcome True (passes r)),
       sendToRenderer (auto_mode_feature_complete (f_id f) (passes r) (message r)) w1)"
    by (simp add: complete_def)
  from u have w1: "w1 = snd (updateFeatureStatus i s path w)" by simp
  show "fst (complete i f s path r w) = Inr (Outcome True (passes r))" using c by simp
  show "queries (snd (complete i f s path r w)) = queries w" using c w1 by simp
  show "stored_status path i (snd (complete i f s path r w)) = Some s"
    using c w1 stored_status_updated [OF assms, of s] by simp
qed

text \<open>
  C2. With a delegate whose every attempt ends while the feature remains \<open>in_progress\<close>,
  \<open>resumeFeature\<close> on a feature that is not registered and is stored as \<open>in_progress\<close>
  returns the non-passing outcome after exactly four calls of \<open>query\<close> (the first attempt
  and \<open>maxAttempts = 3\<close> retries), and leaves the feature stored as \<open>in_progress\<close>.
\<close>

theorem resume_retries_bounded:
  assumes "stays_in_progress ag path featureId" and "\<not> has featureId w"
    and "stored_status path featureId w = Some ''in_progress''"
    and "writeFile_error (env w) path = None"
  shows "fst (resumeFeature ag path featureId w) = Inr (Outcome True False) \<and>
         length (queries (snd (resumeFeature ag path featureId w))) = length (queries w) + 4 \<and>
         stored_status path featureId (snd (resumeFeature ag path featureId w)) = Some ''in_progress''"
proof -
  let ?wr = "register featureId path w"
  from assms(3) obtain f where f: "find_feature featureId (loadFeatures path ?wr) = Some f"
    by (auto simp: stored_status_def split: option.splits)
  then have fi: "f_id f = featureId" by (rule find_feature_id)
  let ?ws = "sendToRenderer (auto_mode_feature_start (f_id f) f) ?wr"
  have s: "has featureId ?ws" "stored_status path featureId ?ws = Some ''in_progress''"
    "writeFile_error (env ?ws) path = None" "queries ?ws = queries w"
    using assms(3,4) by simp_all
  from stays_in_progressD [OF assms(1) fi s(1,2,3), of "readContextFile path featureId ?ws"]
  obtain r0 w1
    where a: "resumeFeatureWithContext ag f path (readContextFile path featureId ?ws) ?ws = (Inr r0, w1)"
      and p: "\<not> passes r0" "has featureId w1" "stored_status path featureId w1 = Some ''in_progress''"
        "writeFile_error (env w1) path = None"
      and q: "length (queries w1) = Suc (length (queries ?ws))"
    by blast
  from retry_loop_exhausts [OF assms(1) fi refl _ p, of 0] obtain r' w2
    where l: "retry_loop ag f path featureId 0 r0 w1 = (Inr r', w2)"
      and p': "\<not> passes r'" "stored_status path featureId w2 = Some ''in_progress''"
        "writeFile_error (env w2) path = None"
      and q': "length (queries w2) = length (queries w1) + (maxAttempts - 0)"
    by auto
  note k = complete_listed [OF listed_if_stored [OF p'(2)] p'(3), of f "''in_progress''" r']
  obtain out w3 where c: "complete featureId f ''in_progress'' path r' w2 = (out, w3)"
    by (cases "complete featureId f ''in_progress'' path r' w2")
  with k p'(1) have c': "out = Inr (Outcome True False)" "queries w3 = queries w2"
    "stored_status path featureId w3 = Some ''in_progress''"
    by simp_all
  have t: "resumeFeature_try ag path featureId ?wr = (Inr (Outcome True False), w3)"
    using f a l p'(1) c c'(1) by (simp add: resumeFeature_try_def)
  have r: "resumeFeature ag path featureId w = (Inr (Outcome True False), unregister featureId w3)"
    using assms(2) t by (simp add: resumeFeature_def catch_finally_def)
  show ?thesis
    using r c'(2,3) q q' s(4) by (simp add: maxAttempts_def)
qed

lemma quiet_stays_in_progress: "stays_in_progress quiet_agent path i"
  unfolding stays_in_progress_def
  by (simp add: resumeFeatureWithContext_def resume_action_def resume_check_def quiet_agent_def
      stream_block_def Let_def)

lemma w_in_progress_facts:
  "\<not> has ''f1'' w_in_progress"
  "stored_status ''/p'' ''f1'' w_in_progress = Some ''in_progress''"
  "writeFile_error (env w_in_progress) ''/p'' = None"
  "queries w_in_progress = []"
  by (simp_all add: w_in_progress_def has_def constructor_def env0_def stored_status_def
      loadFeatures_def find_feature_def with_id_def id_or_generated_def raw1_def)

theorem resume_retries_bounded_witness:
  "stays_in_progress quiet_agent ''/p'' ''f1'' \<and> \<not> has ''f1'' w_in_progress \<and>
   stored_status ''/p'' ''f1'' w_in_progress = Some ''in_progress'' \<and>
   writeFile_error (env w_in_progress) ''/p'' = None \<and>
   fst (resumeFeature quiet_agent ''/p'' ''f1'' w_in_progress) = Inr (Outcome True False) \<and>
   length (queries (snd (resumeFeature quiet_agent ''/p'' ''f1'' w_in_progress))) = 4"
  using resume_retries_bounded [OF quiet_stays_in_progress w_in_progress_facts(1,2,3)]
    quiet_stays_in_progress [of "''/p''" "''f1''"] w_in_progress_facts
  by simp

end
